theory Spec2Isabelle
  imports Complex_Main
begin

section \<open>Python values and exceptions\<close>

text \<open>
  Every \<^verbatim>\<open>raise\<close>, failed \<^verbatim>\<open>assert\<close> and failing library call of the Python source is
  a value: a function that can raise returns \<open>exn + 'a\<close>, with \<open>Inl\<close> the exception.
  \<open>ValueError\<close> carries its message, the other exceptions are told apart by class.
\<close>

datatype exn =
    AssertionError
  | IndexError
  | ValueError string
  | ZeroDivisionError
  | RuntimeError
  | AttributeError

definition ebind :: "exn + 'a \<Rightarrow> ('a \<Rightarrow> exn + 'b) \<Rightarrow> exn + 'b" where
  "ebind m f = (case m of Inl e \<Rightarrow> Inl e | Inr x \<Rightarrow> f x)"

fun emap :: "('a \<Rightarrow> exn + 'b) \<Rightarrow> 'a list \<Rightarrow> exn + 'b list" where
  "emap f [] = Inr []"
| "emap f (x # xs) = ebind (f x) (\<lambda>y. ebind (emap f xs) (\<lambda>ys. Inr (y # ys)))"

text \<open>Decimal rendering of an integer, as an f-string does it.\<close>

fun str_nat :: "nat \<Rightarrow> string" where
  "str_nat n =
     (if n < 10 then [char_of (48 + n)]
      else str_nat (n div 10) @ [char_of (48 + n mod 10)])"

declare str_nat.simps [simp del]

definition str_int :: "int \<Rightarrow> string" where
  "str_int i = (if i < 0 then CHR ''-'' # str_nat (nat (- i)) else str_nat (nat i))"

text \<open>An argument typed \<^verbatim>\<open>Union[int, Iterable[int]]\<close>.\<close>

datatype int_or_tuple = IntVal int | TupleVal "int list"

section \<open>fft\_conv.py: to\_ntuple and the layer constructor\<close>

text \<open>
  \<^verbatim>\<open>to_ntuple(val, n)\<close>: an iterable is returned as a tuple when its length is \<open>n\<close> and
  raises \<open>ValueError\<close> otherwise; an integer is repeated, \<^verbatim>\<open>n * (val,)\<close>, which is the
  empty tuple for \<open>n \<le> 0\<close>.
\<close>

definition to_ntuple :: "int_or_tuple \<Rightarrow> int \<Rightarrow> exn + int list" where
  "to_ntuple val n =
     (case val of
        TupleVal out \<Rightarrow>
          if int (length out) = n then Inr out
          else Inl (ValueError (''Cannot cast tuple of length '' @ str_int (int (length out))
                                @ '' to length '' @ str_int n @ ''.''))
      | IntVal v \<Rightarrow> Inr (replicate (nat n) v))"

text \<open>
  \<^verbatim>\<open>torch.randn(*size)\<close> only matters here through the shape it allocates; a negative
  dimension is a \<open>RuntimeError\<close>.
\<close>

definition randn :: "int list \<Rightarrow> exn + int list" where
  "randn sz = (if \<exists>d \<in> set sz. d < 0 then Inl RuntimeError else Inr sz)"

text \<open>
  The fields \<^verbatim>\<open>_FFTConv.__init__\<close> sets. \<open>weight\<close> and \<open>bias\<close> are kept as the shapes of
  the parameters.
\<close>

record fftconv =
  fc_in_channels :: int
  fc_out_channels :: int
  fc_kernel_size :: int_or_tuple
  fc_padding :: int_or_tuple
  fc_stride :: int_or_tuple
  fc_groups :: int
  fc_use_bias :: bool
  fc_weight :: "int list"
  fc_bias :: "int list option"

definition quoted :: "string \<Rightarrow> string" where
  "quoted s = [CHR 0x27] @ s @ [CHR 0x27]"

definition in_channels_msg :: "int \<Rightarrow> int \<Rightarrow> string" where
  "in_channels_msg in_channels groups =
     quoted ''in_channels'' @ '' must be divisible by '' @ quoted ''groups'' @ ''.''
     @ ''Found: in_channels='' @ str_int in_channels @ '', groups='' @ str_int groups @ ''.''"

definition out_channels_msg :: "int \<Rightarrow> int \<Rightarrow> string" where
  "out_channels_msg out_channels groups =
     quoted ''out_channels'' @ '' must be divisible by '' @ quoted ''groups'' @ ''.''
     @ ''Found: out_channels='' @ str_int out_channels @ '', groups='' @ str_int groups @ ''.''"

text \<open>
  \<^verbatim>\<open>_FFTConv.__init__\<close>. Python's \<^verbatim>\<open>%\<close> on integers is the floored remainder, as
  \<open>mod\<close> on \<open>int\<close> is, except that a zero divisor raises \<open>ZeroDivisionError\<close>; the same
  holds for \<^verbatim>\<open>//\<close> and \<open>div\<close>.
\<close>

definition FFTConv_init ::
  "int \<Rightarrow> int \<Rightarrow> int_or_tuple \<Rightarrow> int_or_tuple \<Rightarrow> int_or_tuple \<Rightarrow> int \<Rightarrow> bool \<Rightarrow> int
   \<Rightarrow> exn + fftconv" where
  "FFTConv_init in_channels out_channels kernel_size padding stride groups bias ndim =
     (if groups = 0 then Inl ZeroDivisionError
      else if in_channels mod groups \<noteq> 0
        then Inl (ValueError (in_channels_msg in_channels groups))
      else if out_channels mod groups \<noteq> 0
        then Inl (ValueError (out_channels_msg out_channels groups))
      else
        ebind (to_ntuple kernel_size ndim) (\<lambda>ks.
        ebind (randn ([out_channels, in_channels div groups] @ ks)) (\<lambda>w.
        ebind (if bias then ebind (randn [out_channels]) (\<lambda>b. Inr (Some b)) else Inr None) (\<lambda>b.
        Inr \<lparr> fc_in_channels = in_channels, fc_out_channels = out_channels,
              fc_kernel_size = kernel_size, fc_padding = padding, fc_stride = stride,
              fc_groups = groups, fc_use_bias = bias, fc_weight = w, fc_bias = b \<rparr>))))"

section \<open>fft\_conv.py: the convolution, on tensor shapes\<close>

text \<open>
  A tensor is represented by its shape, the list of its dimension sizes: the claims about
  \<^verbatim>\<open>fft_conv\<close> are about which shape it returns and where it raises. Each library call is
  modelled by what it does to the shape, and by the errors it raises on a shape it does
  not accept.
\<close>

text \<open>\<^verbatim>\<open>t.size(i)\<close> and \<^verbatim>\<open>t[i]\<close> on a tuple: negative indices count from the end.\<close>

definition size_at :: "'a list \<Rightarrow> int \<Rightarrow> exn + 'a" where
  "size_at xs i =
     (let n = int (length xs); j = (if i < 0 then n + i else i)
      in if 0 \<le> j \<and> j < n then Inr (xs ! nat j) else Inl IndexError)"

text \<open>
  \<^verbatim>\<open>torch.nn.functional.pad(t, pad)\<close> in constant mode. \<open>pad\<close> lists (left, right) pairs
  starting from the last dimension; a negative entry crops; a negative resulting size, an
  odd number of entries or more pairs than dimensions is a \<open>RuntimeError\<close>.
\<close>

fun pad_pairs :: "int list \<Rightarrow> (int \<times> int) list" where
  "pad_pairs (l # r # rest) = (l, r) # pad_pairs rest"
| "pad_pairs _ = []"

definition f_pad :: "int list \<Rightarrow> int list \<Rightarrow> exn + int list" where
  "f_pad shape pad =
     (if odd (length pad) \<or> length shape < length pad div 2 then Inl RuntimeError
      else
        let m = length pad div 2;
            new = map (\<lambda>(s, (l, r)). s + l + r)
                      (zip (drop (length shape - m) shape) (rev (pad_pairs pad)))
        in if \<exists>d \<in> set new. d < 0 then Inl RuntimeError
           else Inr (take (length shape - m) shape @ new))"

text \<open>
  \<^verbatim>\<open>rfftn(t, dim=tuple(range(2, t.ndim)))\<close>: the one-sided transform keeps
  \<open>n div 2 + 1\<close> frequencies of the last dimension. \<^verbatim>\<open>irfftn\<close> with no explicit size
  returns \<open>2 * (m - 1)\<close> samples from \<open>m\<close> frequencies. Both refuse an empty list of
  dimensions and a dimension without data points.
\<close>

definition rfftn :: "int list \<Rightarrow> exn + int list" where
  "rfftn shape =
     (if length shape \<le> 2 \<or> (\<exists>d \<in> set (drop 2 shape). d < 1) then Inl RuntimeError
      else Inr (butlast shape @ [last shape div 2 + 1]))"

definition irfftn :: "int list \<Rightarrow> exn + int list" where
  "irfftn shape =
     (if length shape \<le> 2 \<or> (\<exists>d \<in> set (drop 2 shape). d < 1) \<or> 2 * (last shape - 1) < 1
      then Inl RuntimeError
      else Inr (butlast shape @ [2 * (last shape - 1)]))"

text \<open>
  \<^verbatim>\<open>t.view(*new)\<close>: the element count is kept; one entry may be \<open>-1\<close> and is inferred,
  which fails when the other entries multiply to zero or do not divide the count.
\<close>

definition view :: "int list \<Rightarrow> int list \<Rightarrow> exn + int list" where
  "view shape new =
     (let numel = prod_list shape; known = prod_list (filter (\<lambda>d. d \<noteq> - 1) new)
      in if \<exists>d \<in> set new. d < - 1 then Inl RuntimeError
         else if length (filter (\<lambda>d. d = - 1) new) > 1 then Inl RuntimeError
         else if - 1 \<notin> set new then (if known = numel then Inr new else Inl RuntimeError)
         else if known = 0 \<or> numel mod known \<noteq> 0 then Inl RuntimeError
         else Inr (map (\<lambda>d. if d = - 1 then numel div known else d) new))"

text \<open>Broadcasting of two sizes, and of two shapes aligned at their last dimension.\<close>

definition broadcast_dim :: "int \<Rightarrow> int \<Rightarrow> exn + int" where
  "broadcast_dim m n =
     (if m = n then Inr m else if m = 1 then Inr n else if n = 1 then Inr m
      else Inl RuntimeError)"

fun broadcast_rev :: "int list \<Rightarrow> int list \<Rightarrow> exn + int list" where
  "broadcast_rev [] ys = Inr ys"
| "broadcast_rev xs [] = Inr xs"
| "broadcast_rev (x # xs) (y # ys) =
     ebind (broadcast_dim x y) (\<lambda>d. ebind (broadcast_rev xs ys) (\<lambda>ds. Inr (d # ds)))"

definition broadcast_shapes :: "int list \<Rightarrow> int list \<Rightarrow> exn + int list" where
  "broadcast_shapes xs ys = ebind (broadcast_rev (rev xs) (rev ys)) (\<lambda>r. Inr (rev r))"

text \<open>
  \<^verbatim>\<open>torch.einsum("agc..., gbc... -> agb...", a, b)\<close>: the sizes of a shared subscript
  have to broadcast, the contracted subscript \<open>c\<close> disappears.
\<close>

fun scalar_matmul :: "int list \<Rightarrow> int list \<Rightarrow> exn + int list" where
  "scalar_matmul (a # g # c # ea) (g' # b # c' # eb) =
     ebind (broadcast_dim g g') (\<lambda>g''.
     ebind (broadcast_dim c c') (\<lambda>_.
     ebind (broadcast_shapes ea eb) (\<lambda>e. Inr ([a, g'', b] @ e))))"
| "scalar_matmul _ _ = Inl RuntimeError"

text \<open>
  \<^verbatim>\<open>complex_matmul(a, b, groups)\<close>. The real and the imaginary part are sums of two
  products of the same shapes, so one product gives the shape of \<open>c\<close>.
\<close>

definition complex_matmul :: "int list \<Rightarrow> int list \<Rightarrow> int \<Rightarrow> exn + int list" where
  "complex_matmul a b groups =
     ebind (size_at a 0) (\<lambda>a0.
     ebind (view a ([a0, groups, - 1] @ drop 2 a)) (\<lambda>a'.
     ebind (view b ([groups, - 1] @ drop 1 b)) (\<lambda>b'.
     ebind (scalar_matmul a' b') (\<lambda>c.
     ebind (size_at c 0) (\<lambda>c0.
     view c ([c0, - 1] @ drop 3 c))))))"

text \<open>
  The length of \<^verbatim>\<open>t[0:stop:step]\<close> along a dimension of size \<open>M\<close>: a negative \<open>stop\<close>
  counts from the end, the bounds are clamped to the dimension, and the tensor library
  accepts positive steps only.
\<close>

definition slice_len :: "int \<Rightarrow> int \<Rightarrow> int \<Rightarrow> exn + int" where
  "slice_len M stop step =
     (if step \<le> 0 then Inl (ValueError ''step must be greater than zero'')
      else
        let stop' = (if stop < 0 then max 0 (stop + M) else min stop M)
        in Inr ((stop' + step - 1) div step))"

text \<open>The \<^verbatim>\<open>padding\<close> argument: the string \<^verbatim>\<open>"same"\<close>, an integer or a tuple.\<close>

datatype padding_arg = Same | Padding int_or_tuple

text \<open>
  The padding to an even length: \<^verbatim>\<open>if signal.size(-1) % 2 != 0: signal = f.pad(signal, [0, 1])\<close>.
\<close>

definition pad_to_even :: "int list \<Rightarrow> exn + int list" where
  "pad_to_even signal1 =
     ebind (size_at signal1 (- 1)) (\<lambda>last_size.
     if last_size mod 2 \<noteq> 0 then f_pad signal1 [0, 1] else Inr signal1)"

text \<open>The stop of the crop slice along one dimension.\<close>

definition crop_stop :: "int \<Rightarrow> int \<Rightarrow> int" where
  "crop_stop signal_size_i kernel_size_i = signal_size_i - kernel_size_i + kernel_size_i mod 2"

text \<open>
  \<^verbatim>\<open>fft_conv(signal, kernel, bias, padding, stride, groups)\<close> with the default
  \<^verbatim>\<open>padding_mode="constant"\<close>, statement by statement. \<open>signal_size\<close> is the shape recorded
  after the padding asked for and before the padding to an even length.
\<close>

definition fft_conv ::
  "int list \<Rightarrow> int list \<Rightarrow> int list option \<Rightarrow> padding_arg \<Rightarrow> int_or_tuple \<Rightarrow> int
   \<Rightarrow> exn + int list" where
  "fft_conv signal kern bias padding stride groups =
     ebind (to_ntuple stride (int (length signal) - 2)) (\<lambda>stride'.
     ebind (case padding of
              Padding p \<Rightarrow> to_ntuple p (int (length signal) - 2)
            | Same \<Rightarrow> Inr (map (\<lambda>k. k div 2) (drop 2 kern))) (\<lambda>padding'.
     let signal_padding = concat (map (\<lambda>p. [p, p]) (rev padding')) in
     ebind (f_pad signal signal_padding) (\<lambda>signal1.
     let signal_size = signal1 in
     ebind (pad_to_even signal1) (\<lambda>signal2.
     ebind (emap (\<lambda>i. ebind (size_at signal2 (int i)) (\<lambda>s.
                       ebind (size_at kern (int i)) (\<lambda>k. Inr [0, s - k])))
                 (rev [2..<length signal2])) (\<lambda>kernel_padding.
     ebind (f_pad kern (concat kernel_padding)) (\<lambda>padded_kernel.
     if drop 1 padded_kernel \<noteq> drop 1 signal2 then Inl AssertionError
     else
       ebind (rfftn signal2) (\<lambda>signal_fr.
       ebind (rfftn padded_kernel) (\<lambda>kernel_fr.
       ebind (complex_matmul signal_fr kernel_fr groups) (\<lambda>output_fr.
       ebind (irfftn output_fr) (\<lambda>output.
       ebind (emap (\<lambda>i. ebind (size_at signal_size (int i)) (\<lambda>s.
                         ebind (size_at kern (int i)) (\<lambda>k.
                         ebind (size_at stride' (int i - 2)) (\<lambda>st.
                         ebind (size_at output (int i)) (\<lambda>M.
                         slice_len M (crop_stop s k) st)))))
                   [2..<length signal2]) (\<lambda>cropped.
       let output' = take 2 output @ cropped in
       case bias of
         None \<Rightarrow> Inr output'
       | Some b \<Rightarrow>
           ebind (view b ([1, - 1] @ replicate (length signal2 - 2) 1)) (\<lambda>bias_view.
           ebind (broadcast_shapes output' bias_view) (\<lambda>r.
           if r = output' then Inr output' else Inl RuntimeError)))))))))))))"

text \<open>
  The two closed forms the output length is compared with: the length of a direct
  convolution, and the length the crop of \<^verbatim>\<open>fft_conv\<close> produces.
\<close>

definition direct_conv_len :: "int \<Rightarrow> int \<Rightarrow> int \<Rightarrow> int \<Rightarrow> int" where
  "direct_conv_len n p k s = (n + 2 * p - k) div s + 1"

definition fft_conv_len :: "int \<Rightarrow> int \<Rightarrow> int \<Rightarrow> int \<Rightarrow> int" where
  "fft_conv_len n p k s = (n + 2 * p - k + k mod 2 + s - 1) div s"

section \<open>network.py: construction of the UNet\<close>

text \<open>The arguments of \<^verbatim>\<open>UNet.__init__\<close>; Python's integers are unbounded.\<close>

record unet_config =
  in_channels :: int
  base_channels :: int
  kernel_size :: int
  n_dim :: int
  depth :: int
  encoding_block_sizes :: "int list"
  decoding_block_sizes :: "int list"
  downsampling :: "string list"
  upsampling :: "string list"
  skip_method :: string
  ffc :: bool

text \<open>
  The modules the constructor builds, by class and constructor arguments. In
  \<open>Conv\<close>, \<open>ResidualBlock\<close> and \<open>EncoderBlock\<close> the last flag is \<open>ffc\<close>.
\<close>

datatype layer =
    Conv int int int int bool
  | ConvTranspose int int
  | UpsampleConv string int int int
  | Identity
  | ResidualBlock int int int bool bool
  | EncoderBlock int int int string bool

record unet =
  u_skip_method :: string
  u_conv_first :: layer
  u_encoder_blocks :: "layer list"
  u_bottom_block :: layer
  u_upsampling_blocks :: "layer list"
  u_conv_after_upsample_blocks :: "layer list"
  u_decoder_blocks :: "layer list"

text \<open>
  The seven \<^verbatim>\<open>assert\<close> statements that open \<^verbatim>\<open>UNet.__init__\<close>, in the order of the
  source: six on the lengths and block sizes, then the one on \<open>skip_method\<close>. Indexing an
  empty tuple raises \<open>IndexError\<close> before the assertion is evaluated.
\<close>

definition UNet_validate_sizes :: "unet_config \<Rightarrow> exn + unit" where
  "UNet_validate_sizes c =
     (if depth c \<noteq> int (length (encoding_block_sizes c)) then Inl AssertionError
      else
        ebind (size_at (encoding_block_sizes c) 0) (\<lambda>first.
        if \<not> first > 0 then Inl AssertionError
        else
          ebind (size_at (encoding_block_sizes c) (- 1)) (\<lambda>final.
          if final \<noteq> 0 then Inl AssertionError
          else if depth c \<noteq> int (length (decoding_block_sizes c)) + 1 then Inl AssertionError
          else if depth c \<noteq> int (length (downsampling c)) + 1 then Inl AssertionError
          else if length (downsampling c) \<noteq> length (upsampling c) then Inl AssertionError
          else Inr ())))"

definition UNet_validate :: "unet_config \<Rightarrow> exn + unit" where
  "UNet_validate c =
     ebind (UNet_validate_sizes c) (\<lambda>_.
     if skip_method c \<notin> set [''add'', ''concat'', ''cat''] then Inl AssertionError
     else Inr ())"

text \<open>\<^verbatim>\<open>EncoderBlock.__init__\<close> accepts the downsampling methods \<^verbatim>\<open>res\<close> and \<^verbatim>\<open>conv\<close>.\<close>

definition EncoderBlock_init :: "int \<Rightarrow> int \<Rightarrow> int \<Rightarrow> string \<Rightarrow> bool \<Rightarrow> exn + layer" where
  "EncoderBlock_init inc outc block_size down f =
     (if down = ''res'' \<or> down = ''conv'' then Inr (EncoderBlock inc outc block_size down f)
      else Inl (ValueError ''downsampling should be `res`. `conv`, `pool`''))"

text \<open>One round of the decoder loop of \<^verbatim>\<open>UNet.__init__\<close>, for the level \<open>i\<close>.\<close>

definition decoder_level :: "unet_config \<Rightarrow> int \<Rightarrow> exn + (layer \<times> layer \<times> layer)" where
  "decoder_level c i =
     (let inc = base_channels c * 2 ^ nat i;
          outc = base_channels c * 2 ^ nat (i - 1)
      in
      ebind (size_at (upsampling c) (i - 1)) (\<lambda>up.
      ebind (size_at (decoding_block_sizes c) (depth c - 1 - i)) (\<lambda>block_size.
      ebind
        (if up = ''conv'' then
           (if ffc c then Inl (ValueError ''FFC not supported with conv upsampling'')
            else Inr (ConvTranspose inc outc, Identity))
         else if up \<in> set [''nearest'', ''bilinear'', ''bicubic''] \<and> n_dim c = 2
                \<or> up \<in> set [''nearest'', ''trilinear''] \<and> n_dim c = 3 then
           Inr (UpsampleConv up inc outc (kernel_size c),
                Conv (if skip_method c \<noteq> ''add'' then inc else outc)
                     (if skip_method c \<noteq> ''add'' then inc else outc)
                     (kernel_size c) 1 (ffc c))
         else Inl (ValueError (''Upsampling method '' @ up @ '' not supported for ''
                               @ str_int (n_dim c) @ ''D'')))
        (\<lambda>(upsampling_block, conv_after_upsample).
           Inr (upsampling_block, conv_after_upsample,
                ResidualBlock (outc * (if skip_method c \<noteq> ''add'' then 2 else 1)) outc
                              block_size False (ffc c))))))"

text \<open>
  \<^verbatim>\<open>UNet.__init__\<close>: the assertions, the encoder loop over \<^verbatim>\<open>range(2, depth + 1)\<close>, the
  bottom block and the decoder loop over \<^verbatim>\<open>range(depth - 1, 0, -1)\<close>.
\<close>

definition UNet_init :: "unet_config \<Rightarrow> exn + unet" where
  "UNet_init c =
     ebind (UNet_validate c) (\<lambda>_.
     ebind (size_at (encoding_block_sizes c) 0) (\<lambda>first.
     ebind (emap (\<lambda>i. ebind (size_at (encoding_block_sizes c) (i - 1)) (\<lambda>block_size.
                       ebind (size_at (downsampling c) (i - 2)) (\<lambda>down.
                       EncoderBlock_init (base_channels c * 2 ^ nat (i - 2))
                                         (base_channels c * 2 ^ nat (i - 1))
                                         block_size down (ffc c))))
                 [2..depth c]) (\<lambda>encoders.
     let out_channels = (if depth c < 2 then base_channels c
                         else base_channels c * 2 ^ nat (depth c - 1)) in
     ebind (emap (decoder_level c) (rev [1..depth c - 1])) (\<lambda>levels.
     Inr \<lparr> u_skip_method = skip_method c,
           u_conv_first = Conv (in_channels c) (base_channels c) (kernel_size c) 1 (ffc c),
           u_encoder_blocks =
             ResidualBlock (base_channels c) (base_channels c) first False (ffc c) # encoders,
           u_bottom_block =
             ResidualBlock out_channels (base_channels c * 2 ^ nat (depth c - 1)) 1 False (ffc c),
           u_upsampling_blocks = map fst levels,
           u_conv_after_upsample_blocks = map (fst \<circ> snd) levels,
           u_decoder_blocks = map (snd \<circ> snd) levels \<rparr>))))"

section \<open>network.py: the forward pass of the UNet\<close>

text \<open>
  In the forward pass a tensor is the list of its channels; \<^verbatim>\<open>torch.cat([x, skip], dim=1)\<close>
  appends the channels of \<open>skip\<close> to those of \<open>x\<close>, and \<^verbatim>\<open>x.add_(skip)\<close> adds channel by
  channel, a single channel of \<open>skip\<close> being broadcast. The sub-modules are functions on
  tensors.
\<close>

definition add_inplace :: "'a::plus list \<Rightarrow> 'a list \<Rightarrow> exn + 'a list" where
  "add_inplace x skip =
     (if length skip = length x then Inr (map (\<lambda>(a, b). a + b) (zip x skip))
      else if length skip = 1 then Inr (map (\<lambda>a. a + hd skip) x)
      else Inl RuntimeError)"

text \<open>The branch on \<^verbatim>\<open>self.skip_method\<close> inside the decoder loop of \<^verbatim>\<open>UNet.forward\<close>.\<close>

definition fuse_skip :: "string \<Rightarrow> 'a::plus list \<Rightarrow> 'a list \<Rightarrow> exn + 'a list" where
  "fuse_skip method x skip =
     (if method = ''add'' then add_inplace x skip
      else if method \<in> set [''cat'', ''concat''] then Inr (x @ skip)
      else Inl (ValueError []))"

record 'a unet_modules =
  m_skip_method :: string
  m_conv_first :: "'a list \<Rightarrow> 'a list"
  m_encoder_blocks :: "('a list \<Rightarrow> 'a list) list"
  m_bottom_block :: "'a list \<Rightarrow> 'a list"
  m_upsampling_blocks :: "('a list \<Rightarrow> 'a list) list"
  m_decoder_blocks :: "('a list \<Rightarrow> 'a list) list"
  m_conv_after_upsample_blocks :: "('a list \<Rightarrow> 'a list) list"

fun encode :: "('a list \<Rightarrow> 'a list) list \<Rightarrow> 'a list \<Rightarrow> 'a list list \<Rightarrow> 'a list \<times> 'a list list" where
  "encode [] x encoder_outputs = (x, encoder_outputs)"
| "encode (encoder_block # rest) x encoder_outputs =
     encode rest (encoder_block x) (encoder_outputs @ [x])"

fun decode ::
  "string \<Rightarrow>
   (('a::plus list \<Rightarrow> 'a list) \<times> ('a list \<Rightarrow> 'a list) \<times> 'a list \<times> ('a list \<Rightarrow> 'a list)) list
   \<Rightarrow> 'a list \<Rightarrow> exn + 'a list" where
  "decode method [] x = Inr x"
| "decode method ((upsampling_block, decoder_block, skip, extra_conv) # rest) x =
     ebind (fuse_skip method (upsampling_block x) skip) (\<lambda>x'.
     decode method rest (decoder_block (extra_conv x')))"

definition UNet_forward :: "'a::plus unet_modules \<Rightarrow> 'a list \<Rightarrow> exn + 'a list" where
  "UNet_forward m x =
     (case m_encoder_blocks m of
        [] \<Rightarrow> Inl IndexError
      | first # others \<Rightarrow>
          let (x', encoder_outputs) = encode others (first (m_conv_first m x)) []
          in decode (m_skip_method m)
               (zip (m_upsampling_blocks m)
                    (zip (m_decoder_blocks m)
                         (zip (rev encoder_outputs) (m_conv_after_upsample_blocks m))))
               (m_bottom_block m x'))"

section \<open>network.py: the residual unit, with in-place activation\<close>

text \<open>
  \<^verbatim>\<open>nn.ReLU(inplace=True)\<close> overwrites its argument, so the forward pass of the residual
  unit is modelled on a store: a tensor is an address into a list of tensor values, a
  module either allocates its result or overwrites its argument and returns its address.
\<close>

type_synonym 'v store = "'v list"

datatype 'v torch_module = Fresh "'v \<Rightarrow> 'v" | InPlace "'v \<Rightarrow> 'v"

fun run_module :: "'v torch_module \<Rightarrow> 'v store \<Rightarrow> nat \<Rightarrow> 'v store \<times> nat" where
  "run_module (Fresh f) h a = (h @ [f (h ! a)], length h)"
| "run_module (InPlace f) h a = (h[a := f (h ! a)], a)"

fun sequential :: "'v torch_module list \<Rightarrow> 'v store \<Rightarrow> nat \<Rightarrow> 'v store \<times> nat" where
  "sequential [] h a = (h, a)"
| "sequential (m # ms) h a = (let (h', a') = run_module m h a in sequential ms h' a')"

text \<open>
  Modelled from the spec: the fast-Fourier-convolution modules \<^verbatim>\<open>FFC\<close> and \<^verbatim>\<open>BN_ACT_FFC\<close>
  of \<^verbatim>\<open>noise2same/ffc.py\<close>, which the spec describes as an external collaborator returning
  the pair (local output, global output); they are the fields \<open>ru_ffc_shortcut\<close> and
  \<open>ru_ffc_layers\<close>.
\<close>

record 'v residual_unit =
  ru_in_channels :: int
  ru_out_channels :: int
  ru_downsample :: bool
  ru_ffc :: bool
  ru_act :: "'v torch_module"
  ru_bn :: "'v torch_module"
  ru_conv_shortcut :: "'v torch_module"
  ru_layers :: "'v torch_module list"
  ru_ffc_shortcut :: "'v \<Rightarrow> 'v \<times> 'v"
  ru_ffc_layers :: "'v \<Rightarrow> 'v \<times> 'v"

text \<open>
  \<^verbatim>\<open>ResidualUnit.__init__\<close> with \<open>ffc = False\<close>: the functions computed by the batch
  normalisations and convolutions are arguments, the wiring is that of the source. The
  one \<^verbatim>\<open>ReLU\<close> object is used after \<open>bn\<close> and inside \<open>layers\<close>, in place both times.
\<close>

definition ResidualUnit_init ::
  "int \<Rightarrow> int \<Rightarrow> bool \<Rightarrow> ('v \<Rightarrow> 'v) \<Rightarrow> ('v \<Rightarrow> 'v) \<Rightarrow> ('v \<Rightarrow> 'v) \<Rightarrow> ('v \<Rightarrow> 'v) \<Rightarrow> ('v \<Rightarrow> 'v)
   \<Rightarrow> ('v \<Rightarrow> 'v) \<Rightarrow> 'v residual_unit" where
  "ResidualUnit_init inc outc downsample relu bn conv_shortcut conv1 bn1 conv2 =
     \<lparr> ru_in_channels = inc, ru_out_channels = outc, ru_downsample = downsample,
       ru_ffc = False, ru_act = InPlace relu, ru_bn = Fresh bn,
       ru_conv_shortcut = Fresh conv_shortcut,
       ru_layers = [Fresh conv1, Fresh bn1, InPlace relu, Fresh conv2],
       ru_ffc_shortcut = (\<lambda>v. (v, v)), ru_ffc_layers = (\<lambda>v. (v, v)) \<rparr>"

text \<open>\<^verbatim>\<open>ResidualUnit.forward\<close>; the result is the new store and the address returned.\<close>

definition ResidualUnit_forward ::
  "'v::plus residual_unit \<Rightarrow> 'v store \<Rightarrow> nat \<Rightarrow> 'v store \<times> nat" where
  "ResidualUnit_forward u h x =
     (if ru_ffc u then
        let (h1, shortcut) = run_module (Fresh (fst \<circ> ru_ffc_shortcut u)) h x;
            (h2, x2) = run_module (Fresh (fst \<circ> ru_ffc_layers u)) h1 x
        in (h2 @ [h2 ! x2 + h2 ! shortcut], length h2)
      else
        let shortcut = x;
            (h1, x1) = run_module (ru_bn u) h x;
            (h2, x2) = run_module (ru_act u) h1 x1;
            (h3, shortcut) =
               (if ru_in_channels u \<noteq> ru_out_channels u \<or> ru_downsample u
                then run_module (ru_conv_shortcut u) h2 x2 else (h2, shortcut));
            (h4, x4) = sequential (ru_layers u) h3 x2
        in (h4 @ [h4 ! x4 + h4 ! shortcut], length h4))"

section \<open>util.py: loading a checkpoint\<close>





section \<open>util.py: normalize\_min\_mse\<close>

text \<open>
  Arrays are flattened lists of reals: the arithmetic of the source is modelled exactly,
  without the rounding of \<^verbatim>\<open>float32\<close>. \<^verbatim>\<open>np.cov\<close> divides by \<open>N - 1\<close> by default,
  \<^verbatim>\<open>np.var\<close> by \<open>N\<close>.
\<close>

definition mean :: "real list \<Rightarrow> real" where
  "mean xs = sum_list xs / real (length xs)"

definition np_cov01 :: "real list \<Rightarrow> real list \<Rightarrow> real" where
  "np_cov01 xs ys =
     sum_list (map (\<lambda>(x, y). (x - mean xs) * (y - mean ys)) (zip xs ys))
     / (real (length xs) - 1)"

definition np_var :: "real list \<Rightarrow> real" where
  "np_var xs = sum_list (map (\<lambda>x. (x - mean xs) ^ 2) xs) / real (length xs)"

text \<open>
  \<^verbatim>\<open>np.percentile(x, p)\<close> with the default linear interpolation, and
  \<^verbatim>\<open>normalize_percentile(x, p_min, p_max, clip=False)\<close> with its default \<open>eps\<close>.
\<close>

definition np_percentile :: "real list \<Rightarrow> real \<Rightarrow> real" where
  "np_percentile xs p =
     (let s = sort xs; h = p / 100 * (real (length xs) - 1); lo = nat \<lfloor>h\<rfloor>;
          hi = min (lo + 1) (length xs - 1)
      in s ! lo + (h - real lo) * (s ! hi - s ! lo))"

definition normalize_percentile :: "real list \<Rightarrow> real \<Rightarrow> real \<Rightarrow> real list" where
  "normalize_percentile xs p_min p_max =
     (let mi = np_percentile xs p_min; ma = np_percentile xs p_max
      in map (\<lambda>x. (x - mi) / (ma - mi + 1 / 10 ^ 20)) xs)"

definition normalize_min_mse :: "real list \<Rightarrow> real list \<Rightarrow> bool \<Rightarrow> real list \<times> real list" where
  "normalize_min_mse gt x normalize_gt =
     (let gt1 = (if normalize_gt then normalize_percentile gt (1 / 10) (999 / 10) else gt);
          x' = map (\<lambda>v. v - mean x) x;
          gt' = map (\<lambda>v. v - mean gt1) gt1;
          scale = np_cov01 x' gt' / np_var x'
      in (gt', map (\<lambda>v. scale * v) x'))"

text \<open>
  The quantities of the claim: covariance and variance with one divisor \<open>N - ddof\<close>, and
  the mean squared error between two arrays.
\<close>

definition cov_ddof :: "nat \<Rightarrow> real list \<Rightarrow> real list \<Rightarrow> real" where
  "cov_ddof ddof xs ys =
     sum_list (map (\<lambda>(x, y). (x - mean xs) * (y - mean ys)) (zip xs ys))
     / (real (length xs) - real ddof)"

definition var_ddof :: "nat \<Rightarrow> real list \<Rightarrow> real" where
  "var_ddof ddof xs = cov_ddof ddof xs xs"

definition mse :: "real list \<Rightarrow> real list \<Rightarrow> real" where
  "mse xs ys = sum_list (map (\<lambda>(x, y). (x - y) ^ 2) (zip xs ys)) / real (length xs)"

section \<open>util.py: mutual information\<close>

text \<open>
  The contingency table of \<^verbatim>\<open>np.histogram2d\<close> holds counts, kept as natural numbers; the
  logarithms and quotients of the source are modelled in exact real arithmetic, without
  the rounding of floating point. A division by zero does not raise in \<^verbatim>\<open>numpy\<close>: it
  returns \<^verbatim>\<open>nan\<close> or an infinity, which is \<open>None\<close> here.
\<close>

type_synonym contingency = "nat list list"

definition np_divide :: "real \<Rightarrow> real \<Rightarrow> real option" where
  "np_divide x y = (if y = 0 then None else Some (x / y))"

text \<open>\<^verbatim>\<open>np.nonzero(contingency)\<close>: the coordinates of the non-zero entries, row by row.\<close>

definition np_nonzero :: "contingency \<Rightarrow> (nat \<times> nat) list" where
  "np_nonzero c =
     concat (map (\<lambda>i. map (\<lambda>j. (i, j)) (filter (\<lambda>j. c ! i ! j \<noteq> 0) [0..<length (c ! i)]))
                 [0..<length c])"

definition contingency_sum :: "contingency \<Rightarrow> nat" where
  "contingency_sum c = sum_list (map sum_list c)"

text \<open>\<^verbatim>\<open>contingency.sum(axis=1)\<close> and \<^verbatim>\<open>contingency.sum(axis=0)\<close>.\<close>

definition row_sums :: "contingency \<Rightarrow> nat list" where
  "row_sums c = map sum_list c"

definition col_sums :: "contingency \<Rightarrow> nat list" where
  "col_sums c =
     map (\<lambda>j. sum_list (map (\<lambda>row. row ! j) c)) [0..<(if c = [] then 0 else length (hd c))]"

text \<open>
  The summand of \<^verbatim>\<open>joint_entropy_from_contingency\<close> and of
  \<^verbatim>\<open>mutual_info_from_contingency\<close> at the non-zero entry with coordinates \<open>(nzx, nzy)\<close>;
  each function sums its summand over the non-zero entries. The product \<open>outer\<close> is
  computed on 64-bit integers in the source and on unbounded ones here: it is at most the
  square of the number of pixels.
\<close>

definition je_term :: "contingency \<Rightarrow> nat \<Rightarrow> nat \<Rightarrow> real" where
  "je_term c nzx nzy =
     (let nz_val = real (c ! nzx ! nzy);
          p = nz_val / real (contingency_sum c);
          log_p = log 2 p
      in - p * log_p)"

definition joint_entropy_from_contingency :: "contingency \<Rightarrow> real" where
  "joint_entropy_from_contingency c =
     sum_list (map (\<lambda>(nzx, nzy). je_term c nzx nzy) (np_nonzero c))"

definition mi_term :: "contingency \<Rightarrow> nat \<Rightarrow> nat \<Rightarrow> real" where
  "mi_term c nzx nzy =
     (let nz_val = real (c ! nzx ! nzy);
          log_contingency_nm = log 2 nz_val;
          contingency_nm = nz_val / real (contingency_sum c);
          outer = row_sums c ! nzx * col_sums c ! nzy;
          log_outer = - log 2 (real outer) + log 2 (real (sum_list (row_sums c)))
                      + log 2 (real (sum_list (col_sums c)))
      in contingency_nm * (log_contingency_nm - log 2 (real (contingency_sum c)))
         + contingency_nm * log_outer)"

definition mutual_info_from_contingency :: "contingency \<Rightarrow> real" where
  "mutual_info_from_contingency c =
     sum_list (map (\<lambda>(nzx, nzy). mi_term c nzx nzy) (np_nonzero c))"

text \<open>A table of \<open>R\<close> rows and \<open>C\<close> columns.\<close>

definition rectangular :: "nat \<Rightarrow> nat \<Rightarrow> contingency \<Rightarrow> bool" where
  "rectangular R C c \<longleftrightarrow> length c = R \<and> (\<forall>row \<in> set c. length row = C)"

text \<open>
  \<^verbatim>\<open>np.histogram2d(x, y, bins)[0]\<close>: each axis is cut into \<open>bins\<close> intervals of equal
  width between the minimum and the maximum of its data (widened by one half on each side
  when they coincide), the last interval being closed; arrays of different lengths and
  \<open>bins = 0\<close> are refused.
\<close>

definition bin_range :: "real list \<Rightarrow> real \<times> real" where
  "bin_range xs =
     (if xs = [] then (0, 1)
      else let lo = Min (set xs); hi = Max (set xs)
           in if lo = hi then (lo - 1 / 2, hi + 1 / 2) else (lo, hi))"

definition bin_index :: "nat \<Rightarrow> real list \<Rightarrow> real \<Rightarrow> nat" where
  "bin_index bins xs v =
     (let (lo, hi) = bin_range xs
      in if v = hi then bins - 1 else nat \<lfloor>(v - lo) * real bins / (hi - lo)\<rfloor>)"

definition histogram2d :: "real list \<Rightarrow> real list \<Rightarrow> nat \<Rightarrow> exn + contingency" where
  "histogram2d xs ys bins =
     (if length xs \<noteq> length ys then Inl (ValueError ''x and y must have the same length.'')
      else if bins = 0 then Inl (ValueError ''`bins` must be positive'')
      else Inr (map (\<lambda>i. map (\<lambda>j. length (filter (\<lambda>(x, y). bin_index bins xs x = i
                                                        \<and> bin_index bins ys y = j)
                                               (zip xs ys)))
                           [0..<bins])
                    [0..<bins]))"

text \<open>\<^verbatim>\<open>mutual_information(image_a, image_b, bins, normalised)\<close> on flattened images.\<close>

definition mutual_information ::
  "real list \<Rightarrow> real list \<Rightarrow> nat \<Rightarrow> bool \<Rightarrow> exn + real option" where
  "mutual_information image_a image_b bins normalised =
     ebind (histogram2d image_a image_b bins) (\<lambda>c_xy.
     let mi = mutual_info_from_contingency c_xy
     in Inr (if normalised then np_divide mi (joint_entropy_from_contingency c_xy)
             else Some mi))"

section \<open>Exceptions: propagation\<close>

lemma ebind_Inl_iff: "ebind m f = Inl e \<longleftrightarrow> m = Inl e \<or> (\<exists>x. m = Inr x \<and> f x = Inl e)"
  by (cases m) (simp_all add: ebind_def)


lemma ebind_Inr [simp]: "ebind (Inr x) f = f x"
  by (simp add: ebind_def)

lemma ebind_Inl [simp]: "ebind (Inl e) f = Inl e"
  by (simp add: ebind_def)

section \<open>Channel divisibility of the layer constructor\<close>

text \<open>
  The only other exceptions of the constructor come from \<open>to_ntuple\<close> and from the
  allocation of the parameters; their messages do not start with a quote.
\<close>

lemma to_ntuple_error: "to_ntuple v n = Inl e \<Longrightarrow> \<exists>s. e = ValueError (CHR ''C'' # s)"
  by (auto simp: to_ntuple_def split: int_or_tuple.splits if_splits)

lemma randn_error: "randn sz = Inl e \<Longrightarrow> e = RuntimeError"
  by (auto simp: randn_def split: if_splits)

lemma in_channels_msg_head: "\<exists>s. in_channels_msg a b = CHR 0x27 # s"
  by (simp add: in_channels_msg_def quoted_def)

lemma out_channels_msg_head: "\<exists>s. out_channels_msg a b = CHR 0x27 # s"
  by (simp add: out_channels_msg_def quoted_def)

lemma FFTConv_init_tail_error:
  assumes "ebind (to_ntuple ksize ndim) (\<lambda>ks.
           ebind (randn ([cout, cin div groups] @ ks)) (\<lambda>w.
           ebind (if bias then ebind (randn [cout]) (\<lambda>b. Inr (Some b)) else Inr None) (\<lambda>b.
           Inr (f w b)))) = Inl e"
  shows "e = RuntimeError \<or> (\<exists>s. e = ValueError (CHR ''C'' # s))"
  using assms
  by (auto simp: ebind_Inl_iff dest: to_ntuple_error randn_error split: if_splits)

text \<open>
  Claim C5. Constructing an \<^verbatim>\<open>_FFTConv\<close> layer raises a \<open>ValueError\<close> whose message
  names the offending parameters and their values whenever \<open>in_channels\<close> or
  \<open>out_channels\<close> is not divisible by \<open>groups\<close> (for every non-zero \<open>groups\<close>, so for
  every \<open>groups > 1\<close>); when both are divisible, the constructor raises neither of these
  two errors, whatever the values named in the message.
\<close>

theorem FFTConv_init_divisibility:
  "(groups \<noteq> 0 \<and> cin mod groups \<noteq> 0 \<longrightarrow>
      FFTConv_init cin cout ksize pad strd groups bias ndim
        = Inl (ValueError (in_channels_msg cin groups)))
   \<and> (groups \<noteq> 0 \<and> cin mod groups = 0 \<and> cout mod groups \<noteq> 0 \<longrightarrow>
      FFTConv_init cin cout ksize pad strd groups bias ndim
        = Inl (ValueError (out_channels_msg cout groups)))
   \<and> (cin mod groups = 0 \<and> cout mod groups = 0 \<longrightarrow>
      (\<forall>a b. FFTConv_init cin cout ksize pad strd groups bias ndim
              \<noteq> Inl (ValueError (in_channels_msg a b))
           \<and> FFTConv_init cin cout ksize pad strd groups bias ndim
              \<noteq> Inl (ValueError (out_channels_msg a b))))"
proof (intro conjI impI allI)
  assume "groups \<noteq> 0 \<and> cin mod groups \<noteq> 0"
  then show "FFTConv_init cin cout ksize pad strd groups bias ndim
        = Inl (ValueError (in_channels_msg cin groups))"
    by (simp add: FFTConv_init_def)
next
  assume "groups \<noteq> 0 \<and> cin mod groups = 0 \<and> cout mod groups \<noteq> 0"
  then show "FFTConv_init cin cout ksize pad strd groups bias ndim
        = Inl (ValueError (out_channels_msg cout groups))"
    by (simp add: FFTConv_init_def)
next
  fix a b
  assume d: "cin mod groups = 0 \<and> cout mod groups = 0"
  show "FFTConv_init cin cout ksize pad strd groups bias ndim
              \<noteq> Inl (ValueError (in_channels_msg a b))"
  proof
    assume e: "FFTConv_init cin cout ksize pad strd groups bias ndim
              = Inl (ValueError (in_channels_msg a b))"
    obtain s where s: "in_channels_msg a b = CHR 0x27 # s"
      using in_channels_msg_head by blast
    show False
    proof (cases "groups = 0")
      case True
      with e show False by (simp add: FFTConv_init_def)
    next
      case False
      with d e FFTConv_init_tail_error show False
        unfolding FFTConv_init_def s by fastforce
    qed
  qed
  show "FFTConv_init cin cout ksize pad strd groups bias ndim
              \<noteq> Inl (ValueError (out_channels_msg a b))"
  proof
    assume e: "FFTConv_init cin cout ksize pad strd groups bias ndim
              = Inl (ValueError (out_channels_msg a b))"
    obtain s where s: "out_channels_msg a b = CHR 0x27 # s"
      using out_channels_msg_head by blast
    show False
    proof (cases "groups = 0")
      case True
      with e show False by (simp add: FFTConv_init_def)
    next
      case False
      with d e FFTConv_init_tail_error show False
        unfolding FFTConv_init_def s by fastforce
    qed
  qed
qed

theorem FFTConv_init_divisibility_witness:
  "FFTConv_init 3 4 (IntVal 3) (IntVal 0) (IntVal 1) 2 True 1
     = Inl (ValueError (in_channels_msg 3 2))
   \<and> FFTConv_init 4 6 (IntVal 3) (IntVal 0) (IntVal 1) 4 True 1
     = Inl (ValueError (out_channels_msg 6 4))
   \<and> (\<forall>a b. FFTConv_init 4 6 (IntVal 3) (IntVal 0) (IntVal 1) 2 True 1
              \<noteq> Inl (ValueError (in_channels_msg a b))
           \<and> FFTConv_init 4 6 (IntVal 3) (IntVal 0) (IntVal 1) 2 True 1
              \<noteq> Inl (ValueError (out_channels_msg a b)))"
  using FFTConv_init_divisibility [of 2 3 4 "IntVal 3" "IntVal 0" "IntVal 1" True 1]
        FFTConv_init_divisibility [of 4 4 6 "IntVal 3" "IntVal 0" "IntVal 1" True 1]
        FFTConv_init_divisibility [of 2 4 6 "IntVal 3" "IntVal 0" "IntVal 1" True 1]
  by simp

section \<open>Validation of the UNet configuration\<close>

lemma size_at_first: "size_at xs 0 = (if xs = [] then Inl IndexError else Inr (hd xs))"
  by (cases xs) (simp_all add: size_at_def)

lemma size_at_last: "size_at xs (- 1) = (if xs = [] then Inl IndexError else Inr (last xs))"
  by (cases xs rule: rev_cases) (simp_all add: size_at_def nth_append)

lemma UNet_validate_sizes_iff:
  "UNet_validate_sizes c = Inr () \<longleftrightarrow>
     depth c = int (length (encoding_block_sizes c))
     \<and> encoding_block_sizes c \<noteq> []
     \<and> hd (encoding_block_sizes c) > 0
     \<and> last (encoding_block_sizes c) = 0
     \<and> depth c = int (length (decoding_block_sizes c)) + 1
     \<and> depth c = int (length (downsampling c)) + 1
     \<and> length (downsampling c) = length (upsampling c)"
  by (simp add: UNet_validate_sizes_def size_at_first size_at_last)

lemma UNet_validate_sizes_error:
  "UNet_validate_sizes c = Inl e \<Longrightarrow> e = AssertionError \<or> e = IndexError"
  by (auto simp: UNet_validate_sizes_def size_at_first size_at_last split: if_splits)

lemma UNet_init_sizes_error: "UNet_validate_sizes c = Inl e \<Longrightarrow> UNet_init c = Inl e"
  by (simp add: UNet_init_def UNet_validate_def)

text \<open>
  Claim C4, as the source has it. Construction of the UNet fails, with the
  \<open>AssertionError\<close> of a failed \<^verbatim>\<open>assert\<close> or the \<open>IndexError\<close> of indexing an empty
  tuple, whenever \<open>depth \<noteq> len(encoding_block_sizes)\<close>, or
  \<open>encoding_block_sizes[0] \<le> 0\<close>, or \<open>encoding_block_sizes[-1] \<noteq> 0\<close>, or
  \<open>depth \<noteq> len(decoding_block_sizes) + 1\<close>, or \<open>depth \<noteq> len(downsampling) + 1\<close>, or
  \<open>len(downsampling) \<noteq> len(upsampling)\<close>; when none of these holds, the six assertions
  on sizes all pass. The first block size is rejected when it is negative as well as
  when it is zero: the source asserts \<open>encoding_block_sizes[0] > 0\<close>.
\<close>

theorem UNet_size_validation:
  "((depth c \<noteq> int (length (encoding_block_sizes c))
     \<or> (encoding_block_sizes c \<noteq> [] \<and> hd (encoding_block_sizes c) \<le> 0)
     \<or> (encoding_block_sizes c \<noteq> [] \<and> last (encoding_block_sizes c) \<noteq> 0)
     \<or> depth c \<noteq> int (length (decoding_block_sizes c)) + 1
     \<or> depth c \<noteq> int (length (downsampling c)) + 1
     \<or> length (downsampling c) \<noteq> length (upsampling c))
    \<longrightarrow> UNet_init c = Inl AssertionError \<or> UNet_init c = Inl IndexError)
   \<and> (\<not> (depth c \<noteq> int (length (encoding_block_sizes c))
     \<or> (encoding_block_sizes c \<noteq> [] \<and> hd (encoding_block_sizes c) \<le> 0)
     \<or> (encoding_block_sizes c \<noteq> [] \<and> last (encoding_block_sizes c) \<noteq> 0)
     \<or> depth c \<noteq> int (length (decoding_block_sizes c)) + 1
     \<or> depth c \<noteq> int (length (downsampling c)) + 1
     \<or> length (downsampling c) \<noteq> length (upsampling c))
    \<longrightarrow> UNet_validate_sizes c = Inr ())"
proof (intro conjI impI)
  assume bad: "depth c \<noteq> int (length (encoding_block_sizes c))
     \<or> (encoding_block_sizes c \<noteq> [] \<and> hd (encoding_block_sizes c) \<le> 0)
     \<or> (encoding_block_sizes c \<noteq> [] \<and> last (encoding_block_sizes c) \<noteq> 0)
     \<or> depth c \<noteq> int (length (decoding_block_sizes c)) + 1
     \<or> depth c \<noteq> int (length (downsampling c)) + 1
     \<or> length (downsampling c) \<noteq> length (upsampling c)"
  then have "UNet_validate_sizes c \<noteq> Inr ()"
    by (auto simp: UNet_validate_sizes_iff)
  then obtain e where e: "UNet_validate_sizes c = Inl e"
    by (cases "UNet_validate_sizes c") auto
  from UNet_validate_sizes_error [OF e] UNet_init_sizes_error [OF e]
  show "UNet_init c = Inl AssertionError \<or> UNet_init c = Inl IndexError"
    by auto
next
  assume "\<not> (depth c \<noteq> int (length (encoding_block_sizes c))
     \<or> (encoding_block_sizes c \<noteq> [] \<and> hd (encoding_block_sizes c) \<le> 0)
     \<or> (encoding_block_sizes c \<noteq> [] \<and> last (encoding_block_sizes c) \<noteq> 0)
     \<or> depth c \<noteq> int (length (decoding_block_sizes c)) + 1
     \<or> depth c \<noteq> int (length (downsampling c)) + 1
     \<or> length (downsampling c) \<noteq> length (upsampling c))"
  then show "UNet_validate_sizes c = Inr ()"
    by (cases "encoding_block_sizes c = []") (auto simp: UNet_validate_sizes_iff)
qed

text \<open>
  The theorem at two configurations: the default one with a first block size of zero,
  which is rejected, and the default one, whose sizes pass.
\<close>

theorem UNet_size_validation_witness:
  "UNet_init \<lparr>in_channels = 1, base_channels = 96, kernel_size = 3, n_dim = 2, depth = 3,
        encoding_block_sizes = [0, 1, 0], decoding_block_sizes = [1, 1],
        downsampling = [''conv'', ''conv''], upsampling = [''conv'', ''conv''],
        skip_method = ''concat'', ffc = False\<rparr> = Inl AssertionError
   \<and> UNet_validate_sizes \<lparr>in_channels = 1, base_channels = 96, kernel_size = 3, n_dim = 2,
        depth = 3, encoding_block_sizes = [1, 1, 0], decoding_block_sizes = [1, 1],
        downsampling = [''conv'', ''conv''], upsampling = [''conv'', ''conv''],
        skip_method = ''concat'', ffc = False\<rparr> = Inr ()"
  using UNet_size_validation [of "\<lparr>in_channels = 1, base_channels = 96, kernel_size = 3,
        n_dim = 2, depth = 3,
        encoding_block_sizes = [0, 1, 0], decoding_block_sizes = [1, 1],
        downsampling = [''conv'', ''conv''], upsampling = [''conv'', ''conv''],
        skip_method = ''concat'', ffc = False\<rparr>"]
     UNet_size_validation [of "\<lparr>in_channels = 1, base_channels = 96, kernel_size = 3,
        n_dim = 2, depth = 3,
        encoding_block_sizes = [1, 1, 0], decoding_block_sizes = [1, 1],
        downsampling = [''conv'', ''conv''], upsampling = [''conv'', ''conv''],
        skip_method = ''concat'', ffc = False\<rparr>"]
  by (simp add: UNet_init_def UNet_validate_def UNet_validate_sizes_def size_at_def)

text \<open>
  The claim as the spec words it fails at a negative first block size: with
  \<open>depth = 2\<close>, \<open>encoding_block_sizes = (-1, 0)\<close> and one decoding stage none of the
  conditions listed by the spec holds (the first block size is not zero), and the
  construction fails on the assertion \<open>encoding_block_sizes[0] > 0\<close>.
\<close>

theorem UNet_negative_block_size_counterexample:
  "\<not> ((2::int) \<noteq> int (length [- 1, 0::int]) \<or> hd [- 1, 0::int] = 0 \<or> last [- 1, 0::int] \<noteq> 0
       \<or> (2::int) \<noteq> int (length [1::int]) + 1 \<or> (2::int) \<noteq> int (length [''conv'']) + 1
       \<or> length [''conv''] \<noteq> length [''conv''])
   \<and> UNet_validate_sizes \<lparr>in_channels = 1, base_channels = 96, kernel_size = 3, n_dim = 2,
        depth = 2, encoding_block_sizes = [- 1, 0], decoding_block_sizes = [1],
        downsampling = [''conv''], upsampling = [''conv''],
        skip_method = ''concat'', ffc = False\<rparr> = Inl AssertionError
   \<and> UNet_init \<lparr>in_channels = 1, base_channels = 96, kernel_size = 3, n_dim = 2,
        depth = 2, encoding_block_sizes = [- 1, 0], decoding_block_sizes = [1],
        downsampling = [''conv''], upsampling = [''conv''],
        skip_method = ''concat'', ffc = False\<rparr> = Inl AssertionError"
  by (simp add: UNet_init_def UNet_validate_def UNet_validate_sizes_def size_at_def)

section \<open>The skip methods of the UNet\<close>

lemma decoder_level_cat:
  "decoder_level (c\<lparr>skip_method := ''cat''\<rparr>) = decoder_level (c\<lparr>skip_method := ''concat''\<rparr>)"
  by (rule ext) (simp add: decoder_level_def cong: if_cong)

lemma UNet_validate_sizes_skip [simp]:
  "UNet_validate_sizes (c\<lparr>skip_method := s\<rparr>) = UNet_validate_sizes c"
  by (simp add: UNet_validate_sizes_def cong: if_cong)

lemma UNet_init_cat:
  "UNet_init (c\<lparr>skip_method := ''cat''\<rparr>)
     = ebind (UNet_init (c\<lparr>skip_method := ''concat''\<rparr>))
             (\<lambda>u. Inr (u\<lparr>u_skip_method := ''cat''\<rparr>))"
  unfolding UNet_init_def UNet_validate_def decoder_level_cat
  by (auto simp: ebind_def Let_def split: sum.splits)

lemma fuse_skip_cat: "fuse_skip ''cat'' x skip = fuse_skip ''concat'' x skip"
  by (simp add: fuse_skip_def)

lemma decode_cat: "decode ''cat'' zs v = decode ''concat'' zs v"
  by (induction zs arbitrary: v) (auto simp: fuse_skip_cat)

lemma UNet_forward_cat:
  "UNet_forward (m\<lparr>m_skip_method := ''cat''\<rparr>) y
     = UNet_forward (m\<lparr>m_skip_method := ''concat''\<rparr>) y"
  by (simp add: UNet_forward_def decode_cat split: list.splits prod.splits)

lemma size_at_nth: "0 \<le> i \<Longrightarrow> i < int (length xs) \<Longrightarrow> size_at xs i = Inr (xs ! nat i)"
  by (simp add: size_at_def)

lemma emap_Inr:
  "(\<And>x. x \<in> set xs \<Longrightarrow> f x = Inr (g x)) \<Longrightarrow> emap f xs = Inr (map g xs)"
  by (induction xs) simp_all

text \<open>The modules built for the level \<open>i\<close> when the skip method is not \<open>add\<close>.\<close>

lemma decoder_level_concat:
  assumes "skip_method c \<noteq> ''add''"
    and "1 \<le> i" and "i \<le> depth c - 1"
    and "depth c = int (length (decoding_block_sizes c)) + 1"
    and "length (upsampling c) = length (decoding_block_sizes c)"
    and "\<forall>u \<in> set (upsampling c).
           u = ''conv'' \<and> \<not> ffc c
           \<or> u \<in> {''nearest'', ''bilinear'', ''bicubic''} \<and> n_dim c = 2
           \<or> u \<in> {''nearest'', ''trilinear''} \<and> n_dim c = 3"
  shows "decoder_level c i =
    Inr (if upsampling c ! nat (i - 1) = ''conv''
         then ConvTranspose (base_channels c * 2 ^ nat i) (base_channels c * 2 ^ nat (i - 1))
         else UpsampleConv (upsampling c ! nat (i - 1)) (base_channels c * 2 ^ nat i)
                (base_channels c * 2 ^ nat (i - 1)) (kernel_size c),
         if upsampling c ! nat (i - 1) = ''conv'' then Identity
         else Conv (base_channels c * 2 ^ nat i) (base_channels c * 2 ^ nat i)
                (kernel_size c) 1 (ffc c),
         ResidualBlock (base_channels c * 2 ^ nat (i - 1) * 2) (base_channels c * 2 ^ nat (i - 1))
           (decoding_block_sizes c ! nat (depth c - 1 - i)) False (ffc c))"
proof -
  have up: "size_at (upsampling c) (i - 1) = Inr (upsampling c ! nat (i - 1))"
    using assms(2-5) by (intro size_at_nth) auto
  have "upsampling c ! nat (i - 1) \<in> set (upsampling c)"
    using assms(2-5) by (intro nth_mem) auto
  then have valid: "upsampling c ! nat (i - 1) = ''conv'' \<and> \<not> ffc c
      \<or> upsampling c ! nat (i - 1) \<in> {''nearest'', ''bilinear'', ''bicubic''} \<and> n_dim c = 2
      \<or> upsampling c ! nat (i - 1) \<in> {''nearest'', ''trilinear''} \<and> n_dim c = 3"
    using assms(6) by blast
  have bs: "size_at (decoding_block_sizes c) (depth c - 1 - i)
      = Inr (decoding_block_sizes c ! nat (depth c - 1 - i))"
    using assms(2-5) by (intro size_at_nth) auto
  show ?thesis
    unfolding decoder_level_def up bs Let_def ebind_Inr
    using assms(1) valid by auto
qed

lemma encoder_level:
  assumes "2 \<le> i" and "i \<le> depth c"
    and "depth c = int (length (encoding_block_sizes c))"
    and "depth c = int (length (downsampling c)) + 1"
    and "\<forall>d \<in> set (downsampling c). d = ''res'' \<or> d = ''conv''"
  shows "ebind (size_at (encoding_block_sizes c) (i - 1)) (\<lambda>block_size.
           ebind (size_at (downsampling c) (i - 2)) (\<lambda>down.
             EncoderBlock_init (base_channels c * 2 ^ nat (i - 2))
               (base_channels c * 2 ^ nat (i - 1)) block_size down (ffc c)))
         = Inr (EncoderBlock (base_channels c * 2 ^ nat (i - 2)) (base_channels c * 2 ^ nat (i - 1))
                  (encoding_block_sizes c ! nat (i - 1)) (downsampling c ! nat (i - 2)) (ffc c))"
proof -
  have bs: "size_at (encoding_block_sizes c) (i - 1) = Inr (encoding_block_sizes c ! nat (i - 1))"
    using assms by (intro size_at_nth) auto
  have dn: "size_at (downsampling c) (i - 2) = Inr (downsampling c ! nat (i - 2))"
    using assms by (intro size_at_nth) auto
  have "downsampling c ! nat (i - 2) \<in> set (downsampling c)"
    using assms by (intro nth_mem) auto
  then have "downsampling c ! nat (i - 2) = ''res'' \<or> downsampling c ! nat (i - 2) = ''conv''"
    using assms by blast
  then show ?thesis
    by (auto simp add: bs dn EncoderBlock_init_def)
qed

lemma UNet_init_concat:
  assumes sizes: "UNet_validate_sizes c = Inr ()"
    and skip: "skip_method c \<in> {''cat'', ''concat''}"
    and down: "\<forall>d \<in> set (downsampling c). d = ''res'' \<or> d = ''conv''"
    and up: "\<forall>u \<in> set (upsampling c).
           u = ''conv'' \<and> \<not> ffc c
           \<or> u \<in> {''nearest'', ''bilinear'', ''bicubic''} \<and> n_dim c = 2
           \<or> u \<in> {''nearest'', ''trilinear''} \<and> n_dim c = 3"
  shows "UNet_init c = Inr
     \<lparr> u_skip_method = skip_method c,
       u_conv_first = Conv (in_channels c) (base_channels c) (kernel_size c) 1 (ffc c),
       u_encoder_blocks =
         ResidualBlock (base_channels c) (base_channels c) (hd (encoding_block_sizes c))
           False (ffc c)
         # map (\<lambda>i. EncoderBlock (base_channels c * 2 ^ nat (i - 2))
                    (base_channels c * 2 ^ nat (i - 1))
                    (encoding_block_sizes c ! nat (i - 1)) (downsampling c ! nat (i - 2)) (ffc c))
               [2..depth c],
       u_bottom_block =
         ResidualBlock (base_channels c * 2 ^ nat (depth c - 1))
                       (base_channels c * 2 ^ nat (depth c - 1)) 1 False (ffc c),
       u_upsampling_blocks =
         map (\<lambda>i. if upsampling c ! nat (i - 1) = ''conv''
                  then ConvTranspose (base_channels c * 2 ^ nat i)
                         (base_channels c * 2 ^ nat (i - 1))
                  else UpsampleConv (upsampling c ! nat (i - 1)) (base_channels c * 2 ^ nat i)
                         (base_channels c * 2 ^ nat (i - 1)) (kernel_size c))
             (rev [1..depth c - 1]),
       u_conv_after_upsample_blocks =
         map (\<lambda>i. if upsampling c ! nat (i - 1) = ''conv'' then Identity
                  else Conv (base_channels c * 2 ^ nat i) (base_channels c * 2 ^ nat i)
                         (kernel_size c) 1 (ffc c))
             (rev [1..depth c - 1]),
       u_decoder_blocks =
         map (\<lambda>i. ResidualBlock (base_channels c * 2 ^ nat (i - 1) * 2)
                    (base_channels c * 2 ^ nat (i - 1))
                    (decoding_block_sizes c ! nat (depth c - 1 - i)) False (ffc c))
             (rev [1..depth c - 1]) \<rparr>"
proof -
  from sizes have s: "depth c = int (length (encoding_block_sizes c))"
    "encoding_block_sizes c \<noteq> []"
    "depth c = int (length (decoding_block_sizes c)) + 1"
    "depth c = int (length (downsampling c)) + 1"
    "length (downsampling c) = length (upsampling c)"
    by (simp_all add: UNet_validate_sizes_iff)
  from skip have add: "skip_method c \<noteq> ''add''"
    by auto
  have val: "UNet_validate c = Inr ()"
    using sizes skip by (auto simp add: UNet_validate_def)
  have first: "size_at (encoding_block_sizes c) 0 = Inr (hd (encoding_block_sizes c))"
    using s(2) by (simp add: size_at_first)
  have enc: "emap (\<lambda>i. ebind (size_at (encoding_block_sizes c) (i - 1)) (\<lambda>block_size.
                       ebind (size_at (downsampling c) (i - 2)) (\<lambda>down.
                       EncoderBlock_init (base_channels c * 2 ^ nat (i - 2))
                                         (base_channels c * 2 ^ nat (i - 1))
                                         block_size down (ffc c))))
                 [2..depth c]
      = Inr (map (\<lambda>i. EncoderBlock (base_channels c * 2 ^ nat (i - 2))
                    (base_channels c * 2 ^ nat (i - 1))
                    (encoding_block_sizes c ! nat (i - 1)) (downsampling c ! nat (i - 2)) (ffc c))
               [2..depth c])"
  proof (rule emap_Inr)
    fix i assume "i \<in> set [2..depth c]"
    then have "2 \<le> i" "i \<le> depth c" by simp_all
    then show "ebind (size_at (encoding_block_sizes c) (i - 1)) (\<lambda>block_size.
                       ebind (size_at (downsampling c) (i - 2)) (\<lambda>down.
                       EncoderBlock_init (base_channels c * 2 ^ nat (i - 2))
                                         (base_channels c * 2 ^ nat (i - 1))
                                         block_size down (ffc c)))
       = Inr (EncoderBlock (base_channels c * 2 ^ nat (i - 2)) (base_channels c * 2 ^ nat (i - 1))
                  (encoding_block_sizes c ! nat (i - 1)) (downsampling c ! nat (i - 2)) (ffc c))"
      by (rule encoder_level [OF _ _ s(1) s(4) down])
  qed
  have len: "length (upsampling c) = length (decoding_block_sizes c)"
    using s by simp
  have dec: "emap (decoder_level c) (rev [1..depth c - 1])
      = Inr (map (\<lambda>i. (if upsampling c ! nat (i - 1) = ''conv''
                  then ConvTranspose (base_channels c * 2 ^ nat i)
                         (base_channels c * 2 ^ nat (i - 1))
                  else UpsampleConv (upsampling c ! nat (i - 1)) (base_channels c * 2 ^ nat i)
                         (base_channels c * 2 ^ nat (i - 1)) (kernel_size c),
                if upsampling c ! nat (i - 1) = ''conv'' then Identity
                  else Conv (base_channels c * 2 ^ nat i) (base_channels c * 2 ^ nat i)
                         (kernel_size c) 1 (ffc c),
                ResidualBlock (base_channels c * 2 ^ nat (i - 1) * 2)
                    (base_channels c * 2 ^ nat (i - 1))
                    (decoding_block_sizes c ! nat (depth c - 1 - i)) False (ffc c)))
             (rev [1..depth c - 1]))"
  proof (rule emap_Inr)
    fix i assume "i \<in> set (rev [1..depth c - 1])"
    then have "1 \<le> i" "i \<le> depth c - 1" by simp_all
    then show "decoder_level c i =
      Inr (if upsampling c ! nat (i - 1) = ''conv''
                  then ConvTranspose (base_channels c * 2 ^ nat i)
                         (base_channels c * 2 ^ nat (i - 1))
                  else UpsampleConv (upsampling c ! nat (i - 1)) (base_channels c * 2 ^ nat i)
                         (base_channels c * 2 ^ nat (i - 1)) (kernel_size c),
                if upsampling c ! nat (i - 1) = ''conv'' then Identity
                  else Conv (base_channels c * 2 ^ nat i) (base_channels c * 2 ^ nat i)
                         (kernel_size c) 1 (ffc c),
                ResidualBlock (base_channels c * 2 ^ nat (i - 1) * 2)
                    (base_channels c * 2 ^ nat (i - 1))
                    (decoding_block_sizes c ! nat (depth c - 1 - i)) False (ffc c))"
      by (rule decoder_level_concat [OF add _ _ s(3) len up])
  qed
  have two: "\<not> depth c < 2 \<or> base_channels c = base_channels c * 2 ^ nat (depth c - 1)"
    using s by (cases "depth c < 2") auto
  show ?thesis
    unfolding UNet_init_def val first enc dec
    using two by (simp add: Let_def comp_def)
qed

text \<open>The encoder loop and the decoder loop of the forward pass, as folds.\<close>

lemma encode_fold:
  "encode bs x outs =
     (foldl (\<lambda>v b. b v) x bs,
      outs @ map (\<lambda>k. foldl (\<lambda>v b. b v) x (take k bs)) [0..<length bs])"
proof (induction bs arbitrary: x outs)
  case Nil
  show ?case by simp
next
  case (Cons b bs)
  show ?case
    by (simp add: Cons.IH map_upt_Suc del: upt_Suc)
qed

lemma fuse_skip_concat:
  "method \<in> {''cat'', ''concat''} \<Longrightarrow> fuse_skip method x skip = Inr (x @ skip)"
  by (auto simp add: fuse_skip_def)

lemma decode_fold:
  "method \<in> {''cat'', ''concat''} \<Longrightarrow>
     decode method zs x =
       Inr (foldl (\<lambda>v (up, dec, skip, extra). dec (extra (up v @ skip))) x zs)"
  by (induction zs arbitrary: x) (auto simp add: fuse_skip_concat)

lemma UNet_forward_concat:
  assumes "m_encoder_blocks m = first # others" and "m_skip_method m \<in> {''cat'', ''concat''}"
  shows "UNet_forward m x =
     Inr (foldl (\<lambda>v (up, dec, skip, extra). dec (extra (up v @ skip)))
            (m_bottom_block m (foldl (\<lambda>v b. b v) (first (m_conv_first m x)) others))
            (zip (m_upsampling_blocks m)
                 (zip (m_decoder_blocks m)
                      (zip (rev (map (\<lambda>k. foldl (\<lambda>v b. b v) (first (m_conv_first m x)) (take k others))
                                     [0..<length others]))
                           (m_conv_after_upsample_blocks m)))))"
  using assms by (simp add: UNet_forward_def encode_fold decode_fold)

lemma UNet_forward_two_levels:
  "method \<in> {''cat'', ''concat''} \<Longrightarrow>
   UNet_forward \<lparr>m_skip_method = method, m_conv_first = cf, m_encoder_blocks = [e0, e1, e2],
       m_bottom_block = bb, m_upsampling_blocks = [up2, up1], m_decoder_blocks = [d2, d1],
       m_conv_after_upsample_blocks = [x2, x1]\<rparr> x
     = Inr (d1 (x1 (up1 (d2 (x2 (up2 (bb (e2 (e1 (e0 (cf x))))) @ e1 (e0 (cf x))))) @ e0 (cf x))))"
  by (simp add: UNet_forward_def fuse_skip_concat)

text \<open>
  Claim C10. The skip method \<^verbatim>\<open>'cat'\<close> is a synonym of \<^verbatim>\<open>'concat'\<close>. A configuration
  whose sizes are valid passes the whole validation with either value, and when its
  downsampling and upsampling methods are supported ones the constructor returns: it
  builds the modules listed, with decoder blocks of twice the input channels, as the
  concatenation needs. The constructor builds the same modules for both values. In the
  forward pass, with either value and at every depth, each round of the decoder loop
  appends the channels of the skip tensor to those of the upsampled tensor before the
  extra convolution and the decoder block, the skip tensors being the inputs of the
  encoder blocks after the first, in reverse order; the forward pass is the same
  function for both values. A skip method outside \<^verbatim>\<open>'add'\<close>, \<^verbatim>\<open>'concat'\<close>, \<^verbatim>\<open>'cat'\<close> is
  rejected by the constructor, with the \<open>AssertionError\<close> of the seventh assertion when
  the sizes are valid.
\<close>

theorem UNet_skip_method_cat:
  "(UNet_validate_sizes c = Inr () \<and> skip_method c \<in> {''cat'', ''concat''}
      \<longrightarrow> UNet_validate c = Inr ())
   \<and> (UNet_validate_sizes c = Inr () \<and> skip_method c \<in> {''cat'', ''concat''}
        \<and> (\<forall>d \<in> set (downsampling c). d = ''res'' \<or> d = ''conv'')
        \<and> (\<forall>u \<in> set (upsampling c).
              u = ''conv'' \<and> \<not> ffc c
              \<or> u \<in> {''nearest'', ''bilinear'', ''bicubic''} \<and> n_dim c = 2
              \<or> u \<in> {''nearest'', ''trilinear''} \<and> n_dim c = 3)
      \<longrightarrow> UNet_init c = Inr
        \<lparr> u_skip_method = skip_method c,
          u_conv_first = Conv (in_channels c) (base_channels c) (kernel_size c) 1 (ffc c),
          u_encoder_blocks =
            ResidualBlock (base_channels c) (base_channels c) (hd (encoding_block_sizes c))
              False (ffc c)
            # map (\<lambda>i. EncoderBlock (base_channels c * 2 ^ nat (i - 2))
                       (base_channels c * 2 ^ nat (i - 1))
                       (encoding_block_sizes c ! nat (i - 1)) (downsampling c ! nat (i - 2))
                       (ffc c))
                  [2..depth c],
          u_bottom_block =
            ResidualBlock (base_channels c * 2 ^ nat (depth c - 1))
                          (base_channels c * 2 ^ nat (depth c - 1)) 1 False (ffc c),
          u_upsampling_blocks =
            map (\<lambda>i. if upsampling c ! nat (i - 1) = ''conv''
                     then ConvTranspose (base_channels c * 2 ^ nat i)
                            (base_channels c * 2 ^ nat (i - 1))
                     else UpsampleConv (upsampling c ! nat (i - 1)) (base_channels c * 2 ^ nat i)
                            (base_channels c * 2 ^ nat (i - 1)) (kernel_size c))
                (rev [1..depth c - 1]),
          u_conv_after_upsample_blocks =
            map (\<lambda>i. if upsampling c ! nat (i - 1) = ''conv'' then Identity
                     else Conv (base_channels c * 2 ^ nat i) (base_channels c * 2 ^ nat i)
                            (kernel_size c) 1 (ffc c))
                (rev [1..depth c - 1]),
          u_decoder_blocks =
            map (\<lambda>i. ResidualBlock (base_channels c * 2 ^ nat (i - 1) * 2)
                       (base_channels c * 2 ^ nat (i - 1))
                       (decoding_block_sizes c ! nat (depth c - 1 - i)) False (ffc c))
                (rev [1..depth c - 1]) \<rparr>)
   \<and> UNet_init (c\<lparr>skip_method := ''cat''\<rparr>)
       = ebind (UNet_init (c\<lparr>skip_method := ''concat''\<rparr>))
               (\<lambda>u. Inr (u\<lparr>u_skip_method := ''cat''\<rparr>))
   \<and> fuse_skip ''cat'' x skip = Inr (x @ skip)
   \<and> fuse_skip ''concat'' x skip = Inr (x @ skip)
   \<and> (m_skip_method m \<in> {''cat'', ''concat''} \<and> m_encoder_blocks m = first # others
      \<longrightarrow> UNet_forward m y =
        Inr (foldl (\<lambda>v (up, dec, skip, extra). dec (extra (up v @ skip)))
               (m_bottom_block m (foldl (\<lambda>v b. b v) (first (m_conv_first m y)) others))
               (zip (m_upsampling_blocks m)
                    (zip (m_decoder_blocks m)
                         (zip (rev (map (\<lambda>k. foldl (\<lambda>v b. b v) (first (m_conv_first m y))
                                              (take k others))
                                        [0..<length others]))
                              (m_conv_after_upsample_blocks m))))))
   \<and> UNet_forward (m\<lparr>m_skip_method := ''cat''\<rparr>) y
       = UNet_forward (m\<lparr>m_skip_method := ''concat''\<rparr>) y
   \<and> (skip_method c \<notin> {''add'', ''concat'', ''cat''}
      \<longrightarrow> (\<exists>e. UNet_init c = Inl e)
          \<and> (UNet_validate_sizes c = Inr () \<longrightarrow> UNet_init c = Inl AssertionError))"
proof (intro conjI impI)
  assume "UNet_validate_sizes c = Inr () \<and> skip_method c \<in> {''cat'', ''concat''}"
  then show "UNet_validate c = Inr ()"
    by (auto simp add: UNet_validate_def)
next
  assume "UNet_validate_sizes c = Inr () \<and> skip_method c \<in> {''cat'', ''concat''}
        \<and> (\<forall>d \<in> set (downsampling c). d = ''res'' \<or> d = ''conv'')
        \<and> (\<forall>u \<in> set (upsampling c).
              u = ''conv'' \<and> \<not> ffc c
              \<or> u \<in> {''nearest'', ''bilinear'', ''bicubic''} \<and> n_dim c = 2
              \<or> u \<in> {''nearest'', ''trilinear''} \<and> n_dim c = 3)"
  then show "UNet_init c = Inr
        \<lparr> u_skip_method = skip_method c,
          u_conv_first = Conv (in_channels c) (base_channels c) (kernel_size c) 1 (ffc c),
          u_encoder_blocks =
            ResidualBlock (base_channels c) (base_channels c) (hd (encoding_block_sizes c))
              False (ffc c)
            # map (\<lambda>i. EncoderBlock (base_channels c * 2 ^ nat (i - 2))
                       (base_channels c * 2 ^ nat (i - 1))
                       (encoding_block_sizes c ! nat (i - 1)) (downsampling c ! nat (i - 2))
                       (ffc c))
                  [2..depth c],
          u_bottom_block =
            ResidualBlock (base_channels c * 2 ^ nat (depth c - 1))
                          (base_channels c * 2 ^ nat (depth c - 1)) 1 False (ffc c),
          u_upsampling_blocks =
            map (\<lambda>i. if upsampling c ! nat (i - 1) = ''conv''
                     then ConvTranspose (base_channels c * 2 ^ nat i)
                            (base_channels c * 2 ^ nat (i - 1))
                     else UpsampleConv (upsampling c ! nat (i - 1)) (base_channels c * 2 ^ nat i)
                            (base_channels c * 2 ^ nat (i - 1)) (kernel_size c))
                (rev [1..depth c - 1]),
          u_conv_after_upsample_blocks =
            map (\<lambda>i. if upsampling c ! nat (i - 1) = ''conv'' then Identity
                     else Conv (base_channels c * 2 ^ nat i) (base_channels c * 2 ^ nat i)
                            (kernel_size c) 1 (ffc c))
                (rev [1..depth c - 1]),
          u_decoder_blocks =
            map (\<lambda>i. ResidualBlock (base_channels c * 2 ^ nat (i - 1) * 2)
                       (base_channels c * 2 ^ nat (i - 1))
                       (decoding_block_sizes c ! nat (depth c - 1 - i)) False (ffc c))
                (rev [1..depth c - 1]) \<rparr>"
    by (intro UNet_init_concat) simp_all
next
  show "UNet_init (c\<lparr>skip_method := ''cat''\<rparr>)
       = ebind (UNet_init (c\<lparr>skip_method := ''concat''\<rparr>))
               (\<lambda>u. Inr (u\<lparr>u_skip_method := ''cat''\<rparr>))"
    by (rule UNet_init_cat)
next
  show "fuse_skip ''cat'' x skip = Inr (x @ skip)"
    by (simp add: fuse_skip_def)
next
  show "fuse_skip ''concat'' x skip = Inr (x @ skip)"
    by (simp add: fuse_skip_def)
next
  assume "m_skip_method m \<in> {''cat'', ''concat''} \<and> m_encoder_blocks m = first # others"
  then show "UNet_forward m y =
        Inr (foldl (\<lambda>v (up, dec, skip, extra). dec (extra (up v @ skip)))
               (m_bottom_block m (foldl (\<lambda>v b. b v) (first (m_conv_first m y)) others))
               (zip (m_upsampling_blocks m)
                    (zip (m_decoder_blocks m)
                         (zip (rev (map (\<lambda>k. foldl (\<lambda>v b. b v) (first (m_conv_first m y))
                                              (take k others))
                                        [0..<length others]))
                              (m_conv_after_upsample_blocks m)))))"
    by (intro UNet_forward_concat) simp_all
next
  show "UNet_forward (m\<lparr>m_skip_method := ''cat''\<rparr>) y
       = UNet_forward (m\<lparr>m_skip_method := ''concat''\<rparr>) y"
    by (rule UNet_forward_cat)
next
  assume "skip_method c \<notin> {''add'', ''concat'', ''cat''}"
  then show "\<exists>e. UNet_init c = Inl e"
    by (cases "UNet_validate_sizes c") (simp_all add: UNet_init_def UNet_validate_def)
next
  assume "skip_method c \<notin> {''add'', ''concat'', ''cat''}" and "UNet_validate_sizes c = Inr ()"
  then show "UNet_init c = Inl AssertionError"
    by (simp add: UNet_init_def UNet_validate_def)
qed

text \<open>
  The theorem at the default configuration with \<^verbatim>\<open>'cat'\<close> and one interpolating
  upsampling, which the constructor accepts, at a network of depth two run on a tensor
  of two channels, whose output carries the channels of the skip tensor, and at the
  unknown method \<^verbatim>\<open>'mul'\<close>, which the constructor rejects.
\<close>

theorem UNet_skip_method_cat_witness:
  "UNet_validate_sizes \<lparr>in_channels = 1, base_channels = 96, kernel_size = 3, n_dim = 2,
        depth = 3, encoding_block_sizes = [1, 1, 0], decoding_block_sizes = [1, 1],
        downsampling = [''conv'', ''conv''], upsampling = [''conv'', ''nearest''],
        skip_method = ''cat'', ffc = False\<rparr> = Inr ()
   \<and> UNet_init \<lparr>in_channels = 1, base_channels = 96, kernel_size = 3, n_dim = 2, depth = 3,
        encoding_block_sizes = [1, 1, 0], decoding_block_sizes = [1, 1],
        downsampling = [''conv'', ''conv''], upsampling = [''conv'', ''nearest''],
        skip_method = ''cat'', ffc = False\<rparr>
      = Inr \<lparr>u_skip_method = ''cat'', u_conv_first = Conv 1 96 3 1 False,
          u_encoder_blocks = [ResidualBlock 96 96 1 False False,
             EncoderBlock 96 192 1 ''conv'' False, EncoderBlock 192 384 0 ''conv'' False],
          u_bottom_block = ResidualBlock 384 384 1 False False,
          u_upsampling_blocks = [UpsampleConv ''nearest'' 384 192 3, ConvTranspose 192 96],
          u_conv_after_upsample_blocks = [Conv 384 384 3 1 False, Identity],
          u_decoder_blocks = [ResidualBlock 384 192 1 False False,
             ResidualBlock 192 96 1 False False]\<rparr>
   \<and> UNet_forward \<lparr>m_skip_method = ''cat'', m_conv_first = id, m_encoder_blocks = [rev, tl],
        m_bottom_block = map uminus, m_upsampling_blocks = [id], m_decoder_blocks = [rev],
        m_conv_after_upsample_blocks = [id]\<rparr> [1, 2 :: int] = Inr [1, 2, - 1]
   \<and> UNet_init \<lparr>in_channels = 1, base_channels = 96, kernel_size = 3, n_dim = 2, depth = 3,
        encoding_block_sizes = [1, 1, 0], decoding_block_sizes = [1, 1],
        downsampling = [''conv'', ''conv''], upsampling = [''conv'', ''conv''],
        skip_method = ''mul'', ffc = False\<rparr> = Inl AssertionError"
  using UNet_skip_method_cat [where c = "\<lparr>in_channels = 1, base_channels = 96,
        kernel_size = 3, n_dim = 2, depth = 3,
        encoding_block_sizes = [1, 1, 0], decoding_block_sizes = [1, 1],
        downsampling = [''conv'', ''conv''], upsampling = [''conv'', ''nearest''],
        skip_method = ''cat'', ffc = False\<rparr>"
      and m = "\<lparr>m_skip_method = ''cat'', m_conv_first = id, m_encoder_blocks = [rev, tl],
        m_bottom_block = map uminus, m_upsampling_blocks = [id], m_decoder_blocks = [rev],
        m_conv_after_upsample_blocks = [id]\<rparr>" and first = rev and others = "[tl]"
      and y = "[1, 2 :: int]" and x = "[1 :: int]" and skip = "[2]"]
     UNet_skip_method_cat [where c = "\<lparr>in_channels = 1, base_channels = 96,
        kernel_size = 3, n_dim = 2, depth = 3,
        encoding_block_sizes = [1, 1, 0], decoding_block_sizes = [1, 1],
        downsampling = [''conv'', ''conv''], upsampling = [''conv'', ''conv''],
        skip_method = ''mul'', ffc = False\<rparr>"
      and m = "\<lparr>m_skip_method = ''cat'', m_conv_first = id, m_encoder_blocks = [rev, tl],
        m_bottom_block = map uminus, m_upsampling_blocks = [id], m_decoder_blocks = [rev],
        m_conv_after_upsample_blocks = [id]\<rparr>" and first = rev and others = "[tl]"
      and y = "[1, 2 :: int]" and x = "[1 :: int]" and skip = "[2]"]
  by (simp add: UNet_validate_sizes_def size_at_def upto.simps [of 1])

section \<open>The shortcut of the residual unit\<close>

text \<open>
  Claim C7. For a residual unit built without FFC and an input tensor \<open>x\<close>, the forward
  pass returns \<open>layers(relu(bn(x)))\<close>, where \<open>layers\<close> is convolution, batch
  normalisation, activation, convolution, plus a shortcut: the shortcut convolution
  applied to \<open>relu(bn(x))\<close> exactly when \<open>in_channels \<noteq> out_channels\<close> or \<open>downsample\<close>
  is set, and the input \<open>x\<close> otherwise. The activation in place overwrites tensors the
  unit allocated, never a tensor of the caller: the store the caller had is unchanged.
\<close>

theorem ResidualUnit_forward_shortcut:
  "x < length h \<Longrightarrow>
   (let u = ResidualUnit_init inc outc ds relu bn sc conv1 bn1 conv2;
        (h', r) = ResidualUnit_forward u h x;
        y = relu (bn (h ! x))
    in r < length h'
       \<and> h' ! r = conv2 (relu (bn1 (conv1 y))) + (if inc \<noteq> outc \<or> ds then sc y else h ! x)
       \<and> take (length h) h' = h)"
  by (simp add: ResidualUnit_init_def ResidualUnit_forward_def Let_def nth_append
        list_update_append)

text \<open>
  The theorem on integers standing for tensors, with a projection shortcut (4 to 8
  channels) and with the identity shortcut (4 to 4 channels, no downsampling).
\<close>

theorem ResidualUnit_forward_shortcut_witness:
  "(0::nat) < length [7::int]
   \<and> ResidualUnit_forward
       (ResidualUnit_init 4 8 False (max 0) (\<lambda>v. v - 3) (\<lambda>v. 2 * v) (\<lambda>v. v + 1) (\<lambda>v. v - 5)
          (\<lambda>v. 3 * v)) [7::int] 0 = ([7, 4, 8, 5, 0, 0, 8], 6)
   \<and> ResidualUnit_forward
       (ResidualUnit_init 4 4 False (max 0) (\<lambda>v. v - 3) (\<lambda>v. 2 * v) (\<lambda>v. v + 1) (\<lambda>v. v - 5)
          (\<lambda>v. 3 * v)) [7::int] 0 = ([7, 4, 5, 0, 0, 7], 5)"
  using ResidualUnit_forward_shortcut [of 0 "[7::int]" 4 8 False "max 0" "\<lambda>v. v - 3"
          "\<lambda>v. 2 * v" "\<lambda>v. v + 1" "\<lambda>v. v - 5" "\<lambda>v. 3 * v"]
        ResidualUnit_forward_shortcut [of 0 "[7::int]" 4 4 False "max 0" "\<lambda>v. v - 3"
          "\<lambda>v. 2 * v" "\<lambda>v. v + 1" "\<lambda>v. v - 5" "\<lambda>v. 3 * v"]
  by (simp add: ResidualUnit_init_def ResidualUnit_forward_def Let_def)

section \<open>Loading a checkpoint with missing attributes\<close>










section \<open>The scale of normalize\_min\_mse\<close>

text \<open>
  Claim C3 at \<open>gt = x = [0, 1]\<close> with \<open>normalize_gt = False\<close>. The centred arrays are
  both \<open>[-1/2, 1/2]\<close>, so covariance over variance is 1 under either convention and the
  scale 1 reproduces \<open>gt\<close> exactly; the source divides the covariance by \<open>N - 1\<close> and
  the variance by \<open>N\<close>, scales by 2 and returns \<open>[-1, 1]\<close>, at a mean squared error of
  1/4 from the centred \<open>gt\<close>.
\<close>

theorem normalize_min_mse_scale_divergence:
  "normalize_min_mse [0, 1] [0, 1] False = ([- 1 / 2, 1 / 2], [- 1, 1])
   \<and> cov_ddof 0 [- 1 / 2, 1 / 2] [- 1 / 2, 1 / 2] / var_ddof 0 [- 1 / 2, 1 / 2] = 1
   \<and> cov_ddof 1 [- 1 / 2, 1 / 2] [- 1 / 2, 1 / 2] / var_ddof 1 [- 1 / 2, 1 / 2] = 1
   \<and> mse [- 1 / 2, 1 / 2] [- 1, 1] = 1 / 4
   \<and> mse [- 1 / 2, 1 / 2] [- 1 / 2, 1 / 2] = 0"
  by (simp add: normalize_min_mse_def mean_def np_cov01_def np_var_def cov_ddof_def
        var_ddof_def mse_def power2_eq_square)

section \<open>The output shape of the convolution\<close>

text \<open>Shapes with positive sizes: inferring a dimension of a view, and broadcasting.\<close>

lemma filter_pos: "\<forall>d \<in> set S. (0::int) < d \<Longrightarrow> filter (\<lambda>d. d \<noteq> - 1) S = S"
  by (induction S) auto

lemma filter_pos_none: "\<forall>d \<in> set S. (0::int) < d \<Longrightarrow> filter (\<lambda>d. d = - 1) S = []"
  by (induction S) auto

lemma map_pos: "\<forall>d \<in> set S. (0::int) < d \<Longrightarrow> map (\<lambda>d. if d = - 1 then c else d) S = S"
  by (induction S) auto

lemma prod_list_pos: "\<forall>d \<in> set S. (0::int) < d \<Longrightarrow> 0 < prod_list S"
  by (induction S) auto

lemma not_neg_pos: "\<forall>d \<in> set S. (0::int) < d \<Longrightarrow> \<not> (\<exists>d \<in> set S. d < - 1)"
  by auto

lemma minus_one_notin: "\<forall>d \<in> set S. (0::int) < d \<Longrightarrow> - 1 \<notin> set S"
  by auto

lemma view_infer:
  assumes "\<forall>d \<in> set pre. 0 < d" "\<forall>d \<in> set post. 0 < d" "0 \<le> c"
    and "prod_list shape = prod_list pre * c * prod_list post"
  shows "view shape (pre @ [- 1] @ post) = Inr (pre @ [c] @ post)"
proof -
  define K where "K = prod_list pre * prod_list post"
  have k: "0 < K"
    using assms(1,2) by (simp add: K_def prod_list_pos)
  have n: "prod_list shape = c * K"
    using assms(4) by (simp add: K_def ac_simps)
  have "prod_list shape mod K = 0" "prod_list shape div K = c"
    using k unfolding n by simp_all
  moreover have "\<forall>d \<in> set pre \<union> set post. \<not> d < - 1"
    using assms(1,2) by fastforce
  ultimately show ?thesis
    using k assms(1,2)
    by (simp add: view_def Let_def filter_pos filter_pos_none map_pos K_def [symmetric])
qed

lemma broadcast_rev_same: "broadcast_rev S S = Inr S"
  by (induction S) (simp_all add: broadcast_dim_def)

lemma broadcast_shapes_same: "broadcast_shapes S S = Inr S"
  by (simp add: broadcast_shapes_def broadcast_rev_same)

lemma complex_matmul_ungrouped:
  assumes "0 < B" "0 < C" "0 < Co" "\<forall>d \<in> set S. 0 < d"
  shows "complex_matmul ([B, C] @ S) ([Co, C] @ S) 1 = Inr ([B, Co] @ S)"
proof -
  have a: "view ([B, C] @ S) ([B, 1, - 1] @ S) = Inr ([B, 1, C] @ S)"
    using view_infer [of "[B, 1]" S C "[B, C] @ S"] assms by simp
  have b: "view ([Co, C] @ S) ([1, - 1] @ ([C] @ S)) = Inr ([1, Co, C] @ S)"
    using view_infer [of "[1]" "[C] @ S" Co "[Co, C] @ S"] assms by simp
  have c: "view ([B, 1, Co] @ S) ([B, - 1] @ S) = Inr ([B, Co] @ S)"
    using view_infer [of "[B]" S Co "[B, 1, Co] @ S"] assms by simp
  show ?thesis
    using a b c
    by (simp add: complex_matmul_def size_at_def broadcast_dim_def broadcast_shapes_same)
qed

text \<open>
  The crop keeps \<open>ceil(stop / step)\<close> samples as long as the stop computed from the recorded
  size is not negative, whatever the length \<open>M \<ge> N\<close> of the dimension that is cropped.
\<close>

lemma slice_len_crop:
  assumes "0 < s" "0 \<le> k" "0 \<le> crop_stop N k" "N \<le> M"
  shows "slice_len M (crop_stop N k) s = Inr ((crop_stop N k + s - 1) div s)"
proof -
  have "k mod 2 \<le> k"
    using assms(2) by (rule zmod_le_nonneg_dividend)
  then have "crop_stop N k \<le> M"
    using assms(4) by (simp add: crop_stop_def)
  then show ?thesis
    using assms(1,3) by (simp add: slice_len_def Let_def min_def)
qed

text \<open>
  The shape returned for one, two and three spatial dimensions with \<open>groups = 1\<close>, per-axis
  padding and stride, and no bias or a bias of one entry per output channel. \<open>N\<close> is the
  size after the padding asked for; the proof splits on its parity, \<open>h\<close> being half of it.
\<close>

lemma fft_conv_1d:
  assumes "0 < B" "0 < C" "0 < Co" "0 < s1" "0 < k1" "0 < N1" "0 \<le> crop_stop N1 k1"
    and bias: "bias = None \<or> bias = Some [Co]"
  shows "fft_conv [B, C, N1 - 2 * p1] [Co, C, k1] bias
           (Padding (TupleVal [p1])) (TupleVal [s1]) 1
           = Inr [B, Co, (crop_stop N1 k1 + s1 - 1) div s1]"
proof -
  have bv: "view [Co] [1, - 1, 1] = Inr [1, Co, 1]"
    using view_infer [of "[1]" "[1]" Co "[Co]"] assms by simp
  obtain h where h: "N1 = 2 * h \<or> N1 = 2 * h + 1"
    by (metis oddE evenE)
  then show ?thesis
  proof
    assume N: "N1 = 2 * h"
    then have hp: "0 < h" using assms by simp
    have cm: "complex_matmul [B, C, X] [Co, C, Y] 1 = Inr [B, Co, h + 1]"
      if "X = h + 1" "Y = h + 1" for X Y
      using complex_matmul_ungrouped [of B C Co "[h + 1]"] assms hp that by simp
    have sl: "slice_len M (crop_stop N1 k1) s1
                = Inr ((crop_stop N1 k1 + s1 - 1) div s1)"
      if "M = 2 * h" for M
      using slice_len_crop [of s1 k1 N1 "2 * h"] assms that by (simp add: N)
    show ?thesis
      using hp assms bias unfolding N
      by (auto simp: fft_conv_def pad_to_even_def to_ntuple_def f_pad_def size_at_def Let_def
            rfftn_def irfftn_def cm sl [unfolded N]  bv broadcast_shapes_def
            broadcast_dim_def)
  next
    assume N: "N1 = 2 * h + 1"
    then have hp: "0 \<le> h" using assms by simp
    have cm: "complex_matmul [B, C, X] [Co, C, Y] 1 = Inr [B, Co, h + 2]"
      if "X = h + 2" "Y = h + 2" for X Y
      using complex_matmul_ungrouped [of B C Co "[h + 2]"] assms hp that by simp
    have sl: "slice_len M (crop_stop N1 k1) s1
                = Inr ((crop_stop N1 k1 + s1 - 1) div s1)"
      if "M = 2 * h + 2" for M
      using slice_len_crop [of s1 k1 N1 "2 * h + 2"] assms that by (simp add: N)
    show ?thesis
      using hp assms bias unfolding N
      by (auto simp: fft_conv_def pad_to_even_def to_ntuple_def f_pad_def size_at_def Let_def
            rfftn_def irfftn_def cm sl [unfolded N]  bv broadcast_shapes_def
            broadcast_dim_def)
  qed
qed

lemma fft_conv_2d:
  assumes "0 < B" "0 < C" "0 < Co" "0 < s1" "0 < k1" "0 < N1" "0 \<le> crop_stop N1 k1" "0 < s2" "0 < k2" "0 < N2" "0 \<le> crop_stop N2 k2"
    and bias: "bias = None \<or> bias = Some [Co]"
  shows "fft_conv [B, C, N1 - 2 * p1, N2 - 2 * p2] [Co, C, k1, k2] bias
           (Padding (TupleVal [p1, p2])) (TupleVal [s1, s2]) 1
           = Inr [B, Co, (crop_stop N1 k1 + s1 - 1) div s1, (crop_stop N2 k2 + s2 - 1) div s2]"
proof -
  have bv: "view [Co] [1, - 1, 1, 1] = Inr [1, Co, 1, 1]"
    using view_infer [of "[1]" "[1, 1]" Co "[Co]"] assms by simp
  obtain h where h: "N2 = 2 * h \<or> N2 = 2 * h + 1"
    by (metis oddE evenE)
  then show ?thesis
  proof
    assume N: "N2 = 2 * h"
    then have hp: "0 < h" using assms by simp
    have cm: "complex_matmul [B, C, N1, X] [Co, C, N1, Y] 1 = Inr [B, Co, N1, h + 1]"
      if "X = h + 1" "Y = h + 1" for X Y
      using complex_matmul_ungrouped [of B C Co "[N1, h + 1]"] assms hp that by simp
    have sl: "slice_len M (crop_stop N2 k2) s2
                = Inr ((crop_stop N2 k2 + s2 - 1) div s2)"
      if "M = 2 * h" for M
      using slice_len_crop [of s2 k2 N2 "2 * h"] assms that by (simp add: N)
    have sl1: "slice_len N1 (crop_stop N1 k1) s1 = Inr ((crop_stop N1 k1 + s1 - 1) div s1)"
      using slice_len_crop [of s1 k1 N1 N1] assms by simp
    show ?thesis
      using hp assms bias unfolding N
      by (auto simp: fft_conv_def pad_to_even_def to_ntuple_def f_pad_def size_at_def Let_def
            rfftn_def irfftn_def cm sl [unfolded N] sl1 bv broadcast_shapes_def
            broadcast_dim_def)
  next
    assume N: "N2 = 2 * h + 1"
    then have hp: "0 \<le> h" using assms by simp
    have cm: "complex_matmul [B, C, N1, X] [Co, C, N1, Y] 1 = Inr [B, Co, N1, h + 2]"
      if "X = h + 2" "Y = h + 2" for X Y
      using complex_matmul_ungrouped [of B C Co "[N1, h + 2]"] assms hp that by simp
    have sl: "slice_len M (crop_stop N2 k2) s2
                = Inr ((crop_stop N2 k2 + s2 - 1) div s2)"
      if "M = 2 * h + 2" for M
      using slice_len_crop [of s2 k2 N2 "2 * h + 2"] assms that by (simp add: N)
    have sl1: "slice_len N1 (crop_stop N1 k1) s1 = Inr ((crop_stop N1 k1 + s1 - 1) div s1)"
      using slice_len_crop [of s1 k1 N1 N1] assms by simp
    show ?thesis
      using hp assms bias unfolding N
      by (auto simp: fft_conv_def pad_to_even_def to_ntuple_def f_pad_def size_at_def Let_def
            rfftn_def irfftn_def cm sl [unfolded N] sl1 bv broadcast_shapes_def
            broadcast_dim_def)
  qed
qed

lemma fft_conv_3d:
  assumes "0 < B" "0 < C" "0 < Co" "0 < s1" "0 < k1" "0 < N1" "0 \<le> crop_stop N1 k1" "0 < s2" "0 < k2" "0 < N2" "0 \<le> crop_stop N2 k2" "0 < s3" "0 < k3" "0 < N3" "0 \<le> crop_stop N3 k3"
    and bias: "bias = None \<or> bias = Some [Co]"
  shows "fft_conv [B, C, N1 - 2 * p1, N2 - 2 * p2, N3 - 2 * p3] [Co, C, k1, k2, k3] bias
           (Padding (TupleVal [p1, p2, p3])) (TupleVal [s1, s2, s3]) 1
           = Inr [B, Co, (crop_stop N1 k1 + s1 - 1) div s1, (crop_stop N2 k2 + s2 - 1) div s2, (crop_stop N3 k3 + s3 - 1) div s3]"
proof -
  have bv: "view [Co] [1, - 1, 1, 1, 1] = Inr [1, Co, 1, 1, 1]"
    using view_infer [of "[1]" "[1, 1, 1]" Co "[Co]"] assms by simp
  obtain h where h: "N3 = 2 * h \<or> N3 = 2 * h + 1"
    by (metis oddE evenE)
  then show ?thesis
  proof
    assume N: "N3 = 2 * h"
    then have hp: "0 < h" using assms by simp
    have cm: "complex_matmul [B, C, N1, N2, X] [Co, C, N1, N2, Y] 1 = Inr [B, Co, N1, N2, h + 1]"
      if "X = h + 1" "Y = h + 1" for X Y
      using complex_matmul_ungrouped [of B C Co "[N1, N2, h + 1]"] assms hp that by simp
    have sl: "slice_len M (crop_stop N3 k3) s3
                = Inr ((crop_stop N3 k3 + s3 - 1) div s3)"
      if "M = 2 * h" for M
      using slice_len_crop [of s3 k3 N3 "2 * h"] assms that by (simp add: N)
    have sl1: "slice_len N1 (crop_stop N1 k1) s1 = Inr ((crop_stop N1 k1 + s1 - 1) div s1)"
      using slice_len_crop [of s1 k1 N1 N1] assms by simp
    have sl2: "slice_len N2 (crop_stop N2 k2) s2 = Inr ((crop_stop N2 k2 + s2 - 1) div s2)"
      using slice_len_crop [of s2 k2 N2 N2] assms by simp
    show ?thesis
      using hp assms bias unfolding N
      by (auto simp: fft_conv_def pad_to_even_def to_ntuple_def f_pad_def size_at_def Let_def
            rfftn_def irfftn_def cm sl [unfolded N] sl1 sl2 bv broadcast_shapes_def
            broadcast_dim_def)
  next
    assume N: "N3 = 2 * h + 1"
    then have hp: "0 \<le> h" using assms by simp
    have cm: "complex_matmul [B, C, N1, N2, X] [Co, C, N1, N2, Y] 1 = Inr [B, Co, N1, N2, h + 2]"
      if "X = h + 2" "Y = h + 2" for X Y
      using complex_matmul_ungrouped [of B C Co "[N1, N2, h + 2]"] assms hp that by simp
    have sl: "slice_len M (crop_stop N3 k3) s3
                = Inr ((crop_stop N3 k3 + s3 - 1) div s3)"
      if "M = 2 * h + 2" for M
      using slice_len_crop [of s3 k3 N3 "2 * h + 2"] assms that by (simp add: N)
    have sl1: "slice_len N1 (crop_stop N1 k1) s1 = Inr ((crop_stop N1 k1 + s1 - 1) div s1)"
      using slice_len_crop [of s1 k1 N1 N1] assms by simp
    have sl2: "slice_len N2 (crop_stop N2 k2) s2 = Inr ((crop_stop N2 k2 + s2 - 1) div s2)"
      using slice_len_crop [of s2 k2 N2 N2] assms by simp
    show ?thesis
      using hp assms bias unfolding N
      by (auto simp: fft_conv_def pad_to_even_def to_ntuple_def f_pad_def size_at_def Let_def
            rfftn_def irfftn_def cm sl [unfolded N] sl1 sl2 bv broadcast_shapes_def
            broadcast_dim_def)
  qed
qed


text \<open>The output length against the length of a direct convolution.\<close>

lemma fft_conv_len_crop: "fft_conv_len n p k s = (crop_stop (n + 2 * p) k + s - 1) div s"
  by (simp add: fft_conv_len_def crop_stop_def)

lemma fft_conv_len_odd:
  assumes "0 < s" "odd k"
  shows "fft_conv_len n p k s = direct_conv_len n p k s"
proof -
  have "k mod 2 = 1" using assms(2) by (simp add: odd_iff_mod_2_eq_one)
  then have eq: "n + 2 * p - k + k mod 2 + s - 1 = (n + 2 * p - k) + s"
    by simp
  have "fft_conv_len n p k s = ((n + 2 * p - k) + s) div s"
    unfolding fft_conv_len_def eq by (rule refl)
  also have "\<dots> = (n + 2 * p - k) div s + 1"
    using assms(1) by (simp only: div_add_self2)
  finally show ?thesis by (simp add: direct_conv_len_def)
qed

lemma fft_conv_len_even:
  assumes "0 < s" "even k"
  shows "fft_conv_len n p k s = direct_conv_len n p (k + 1) s"
proof -
  have "k mod 2 = 0" using assms(2) by simp
  then have eq: "n + 2 * p - k + k mod 2 + s - 1 = (n + 2 * p - (k + 1)) + s"
    by simp
  have "fft_conv_len n p k s = ((n + 2 * p - (k + 1)) + s) div s"
    unfolding fft_conv_len_def eq by (rule refl)
  also have "\<dots> = (n + 2 * p - (k + 1)) div s + 1"
    using assms(1) by (simp only: div_add_self2)
  finally show ?thesis by (simp add: direct_conv_len_def)
qed

lemma fft_conv_len_same: "fft_conv_len n (k div 2) k 1 = n"
proof -
  have "n + 2 * (k div 2) - k + k mod 2 + 1 - 1 = n"
    by presburger
  then show ?thesis
    unfolding fft_conv_len_def by simp
qed

lemma crop_stop_fits: "0 < k \<Longrightarrow> k \<le> N \<Longrightarrow> 0 \<le> crop_stop N k"
  by (simp add: crop_stop_def)

lemma fft_conv_int_args:
  "2 \<le> length sg \<Longrightarrow>
   fft_conv sg kr bias (Padding (IntVal p)) (IntVal s) g
     = fft_conv sg kr bias (Padding (TupleVal (replicate (length sg - 2) p)))
         (TupleVal (replicate (length sg - 2) s)) g"
  by (simp add: fft_conv_def to_ntuple_def nat_diff_distrib')

lemma fft_conv_same_arg:
  "length kr = length sg \<Longrightarrow> 2 \<le> length sg \<Longrightarrow>
   fft_conv sg kr bias Same strd g
     = fft_conv sg kr bias (Padding (TupleVal (map (\<lambda>k. k div 2) (drop 2 kr)))) strd g"
  by (simp add: fft_conv_def to_ntuple_def)

lemma pad_to_even_shape:
  "sh \<noteq> [] \<Longrightarrow> 0 \<le> last sh \<Longrightarrow>
   pad_to_even sh = Inr (butlast sh @ [if odd (last sh) then last sh + 1 else last sh])"
  by (cases sh rule: rev_cases)
     (auto simp: pad_to_even_def size_at_def f_pad_def nth_append odd_iff_mod_2_eq_one)

text \<open>
  Claim C1, as the source has it. For a signal and a kernel of one, two or three spatial
  dimensions, \<open>groups = 1\<close>, padding \<open>p \<ge> 0\<close>, stride \<open>s \<ge> 1\<close> and kernel sizes
  \<open>1 \<le> k \<le> n + 2p\<close> (given per axis, or as one integer), \<^verbatim>\<open>fft_conv\<close> returns the shape
  (batch, output channels, lengths) whose spatial lengths are
  \<open>ceil((n + 2p - k + k mod 2) / s)\<close>. For an odd kernel size this is
  \<open>floor((n + 2p - k) / s) + 1\<close>, the length of a direct convolution; for an even kernel
  size it is the length of a direct convolution with the kernel size \<open>k + 1\<close>.
\<close>

theorem fft_conv_output_shape:
  assumes "0 < B" "0 < C" "0 < Co"
    and "0 \<le> p1" "0 < s1" "0 < k1" "k1 \<le> n1 + 2 * p1"
    and "0 \<le> p2" "0 < s2" "0 < k2" "k2 \<le> n2 + 2 * p2"
    and "0 \<le> p3" "0 < s3" "0 < k3" "k3 \<le> n3 + 2 * p3"
    and "bias = None \<or> bias = Some [Co]"
  shows "fft_conv [B, C, n1] [Co, C, k1] bias (Padding (TupleVal [p1])) (TupleVal [s1]) 1
           = Inr [B, Co, fft_conv_len n1 p1 k1 s1]
       \<and> fft_conv [B, C, n1, n2] [Co, C, k1, k2] bias
           (Padding (TupleVal [p1, p2])) (TupleVal [s1, s2]) 1
           = Inr [B, Co, fft_conv_len n1 p1 k1 s1, fft_conv_len n2 p2 k2 s2]
       \<and> fft_conv [B, C, n1, n2, n3] [Co, C, k1, k2, k3] bias
           (Padding (TupleVal [p1, p2, p3])) (TupleVal [s1, s2, s3]) 1
           = Inr [B, Co, fft_conv_len n1 p1 k1 s1, fft_conv_len n2 p2 k2 s2,
                  fft_conv_len n3 p3 k3 s3]
       \<and> (odd k1 \<longrightarrow> fft_conv_len n1 p1 k1 s1 = direct_conv_len n1 p1 k1 s1)
       \<and> (even k1 \<longrightarrow> fft_conv_len n1 p1 k1 s1 = direct_conv_len n1 p1 (k1 + 1) s1)
       \<and> fft_conv [B, C, n1] [Co, C, k1] bias (Padding (IntVal p1)) (IntVal s1) 1
           = Inr [B, Co, fft_conv_len n1 p1 k1 s1]"
proof -
  have c: "0 < n1 + 2 * p1" "0 \<le> crop_stop (n1 + 2 * p1) k1"
          "0 < n2 + 2 * p2" "0 \<le> crop_stop (n2 + 2 * p2) k2"
          "0 < n3 + 2 * p3" "0 \<le> crop_stop (n3 + 2 * p3) k3"
    using assms by (simp_all add: crop_stop_fits)
  have d1: "fft_conv [B, C, n1] [Co, C, k1] bias (Padding (TupleVal [p1])) (TupleVal [s1]) 1
           = Inr [B, Co, fft_conv_len n1 p1 k1 s1]"
    using fft_conv_1d [of B C Co s1 k1 "n1 + 2 * p1" bias p1] assms c
    by (simp add: fft_conv_len_crop)
  have d2: "fft_conv [B, C, n1, n2] [Co, C, k1, k2] bias
           (Padding (TupleVal [p1, p2])) (TupleVal [s1, s2]) 1
           = Inr [B, Co, fft_conv_len n1 p1 k1 s1, fft_conv_len n2 p2 k2 s2]"
    using fft_conv_2d [of B C Co s1 k1 "n1 + 2 * p1" s2 k2 "n2 + 2 * p2" bias p1 p2] assms c
    by (simp add: fft_conv_len_crop)
  have d3: "fft_conv [B, C, n1, n2, n3] [Co, C, k1, k2, k3] bias
           (Padding (TupleVal [p1, p2, p3])) (TupleVal [s1, s2, s3]) 1
           = Inr [B, Co, fft_conv_len n1 p1 k1 s1, fft_conv_len n2 p2 k2 s2,
                  fft_conv_len n3 p3 k3 s3]"
    using fft_conv_3d [of B C Co s1 k1 "n1 + 2 * p1" s2 k2 "n2 + 2 * p2" s3 k3 "n3 + 2 * p3"
            bias p1 p2 p3] assms c
    by (simp add: fft_conv_len_crop)
  have i1: "fft_conv [B, C, n1] [Co, C, k1] bias (Padding (IntVal p1)) (IntVal s1) 1
           = Inr [B, Co, fft_conv_len n1 p1 k1 s1]"
    using d1 by (simp add: fft_conv_int_args)
  show ?thesis
    using d1 d2 d3 i1 fft_conv_len_odd [of s1 k1 n1 p1] fft_conv_len_even [of s1 k1 n1 p1] assms(5)
    by simp
qed

text \<open>The theorem at kernel sizes 3, 4 and 5 with padding 1 and stride 2.\<close>

theorem fft_conv_output_shape_witness:
  "fft_conv [2, 3, 8] [4, 3, 3] (Some [4]) (Padding (TupleVal [1])) (TupleVal [2]) 1
     = Inr [2, 4, 4]
   \<and> fft_conv [2, 3, 8, 9] [4, 3, 3, 4] (Some [4]) (Padding (TupleVal [1, 1])) (TupleVal [2, 2]) 1
     = Inr [2, 4, 4, 4]
   \<and> fft_conv [2, 3, 8, 9, 10] [4, 3, 3, 4, 5] (Some [4])
       (Padding (TupleVal [1, 1, 1])) (TupleVal [2, 2, 2]) 1
     = Inr [2, 4, 4, 4, 4]
   \<and> direct_conv_len 8 1 3 2 = 4
   \<and> fft_conv [2, 3, 8] [4, 3, 3] (Some [4]) (Padding (IntVal 1)) (IntVal 2) 1 = Inr [2, 4, 4]"
  using fft_conv_output_shape [where B = 2 and C = 3 and Co = 4 and bias = "Some [4]"
          and ?n1.0 = 8 and ?p1.0 = 1 and ?k1.0 = 3 and ?s1.0 = 2
          and ?n2.0 = 9 and ?p2.0 = 1 and ?k2.0 = 4 and ?s2.0 = 2
          and ?n3.0 = 10 and ?p3.0 = 1 and ?k3.0 = 5 and ?s3.0 = 2]
  by (simp add: fft_conv_len_def direct_conv_len_def)

text \<open>
  With an even kernel size the length differs from that of a direct convolution: a
  signal of length 4 and a kernel of size 2, stride 1, no padding, give length 2, where a
  direct convolution gives \<open>floor((4 - 2) / 1) + 1 = 3\<close>.
\<close>

theorem fft_conv_even_kernel_counterexample:
  "fft_conv [1, 1, 4] [1, 1, 2] None (Padding (IntVal 0)) (IntVal 1) 1 = Inr [1, 1, 2]
   \<and> direct_conv_len 4 0 2 1 = 3"
  by code_simp

section \<open>The padding to an even length and the final crop\<close>

text \<open>
  Claim C6, as the source has it. After the padding asked for, the last dimension gets one
  more entry exactly when its length is odd (\<^verbatim>\<open>f.pad\<close> fills with zero by default). The
  stop of the crop is computed from the size recorded before, and as long as it is not
  negative (the kernel is at most one longer than the padded signal) the crop has the same
  length on a dimension of length \<open>N\<close> and of length \<open>N + 1\<close>: the shape returned is a
  function of the recorded size, for odd and even sizes alike.
\<close>

theorem fft_conv_even_padding:
  "(sh \<noteq> [] \<and> 0 \<le> last sh \<longrightarrow>
      pad_to_even sh = Inr (butlast sh @ [if odd (last sh) then last sh + 1 else last sh]))
   \<and> (0 < B \<and> 0 < C \<and> 0 < Co \<and> (bias = None \<or> bias = Some [Co])
       \<and> 0 < s1 \<and> 0 < k1 \<and> 0 < n1 + 2 * p1 \<and> 0 \<le> crop_stop (n1 + 2 * p1) k1
       \<and> 0 < s2 \<and> 0 < k2 \<and> 0 < n2 + 2 * p2 \<and> 0 \<le> crop_stop (n2 + 2 * p2) k2
       \<and> 0 < s3 \<and> 0 < k3 \<and> 0 < n3 + 2 * p3 \<and> 0 \<le> crop_stop (n3 + 2 * p3) k3
      \<longrightarrow>
        slice_len (n1 + 2 * p1) (crop_stop (n1 + 2 * p1) k1) s1 = Inr (fft_conv_len n1 p1 k1 s1)
        \<and> slice_len (n1 + 2 * p1 + 1) (crop_stop (n1 + 2 * p1) k1) s1
            = Inr (fft_conv_len n1 p1 k1 s1)
        \<and> fft_conv [B, C, n1] [Co, C, k1] bias (Padding (TupleVal [p1])) (TupleVal [s1]) 1
            = Inr [B, Co, fft_conv_len n1 p1 k1 s1]
        \<and> fft_conv [B, C, n1, n2] [Co, C, k1, k2] bias
            (Padding (TupleVal [p1, p2])) (TupleVal [s1, s2]) 1
            = Inr [B, Co, fft_conv_len n1 p1 k1 s1, fft_conv_len n2 p2 k2 s2]
        \<and> fft_conv [B, C, n1, n2, n3] [Co, C, k1, k2, k3] bias
            (Padding (TupleVal [p1, p2, p3])) (TupleVal [s1, s2, s3]) 1
            = Inr [B, Co, fft_conv_len n1 p1 k1 s1, fft_conv_len n2 p2 k2 s2,
                   fft_conv_len n3 p3 k3 s3])"
proof (intro conjI impI)
  assume "sh \<noteq> [] \<and> 0 \<le> last sh"
  then show "pad_to_even sh
      = Inr (butlast sh @ [if odd (last sh) then last sh + 1 else last sh])"
    by (simp add: pad_to_even_shape)
next
  assume h: "0 < B \<and> 0 < C \<and> 0 < Co \<and> (bias = None \<or> bias = Some [Co])
       \<and> 0 < s1 \<and> 0 < k1 \<and> 0 < n1 + 2 * p1 \<and> 0 \<le> crop_stop (n1 + 2 * p1) k1
       \<and> 0 < s2 \<and> 0 < k2 \<and> 0 < n2 + 2 * p2 \<and> 0 \<le> crop_stop (n2 + 2 * p2) k2
       \<and> 0 < s3 \<and> 0 < k3 \<and> 0 < n3 + 2 * p3 \<and> 0 \<le> crop_stop (n3 + 2 * p3) k3"
  show "slice_len (n1 + 2 * p1) (crop_stop (n1 + 2 * p1) k1) s1
          = Inr (fft_conv_len n1 p1 k1 s1)"
    using h slice_len_crop [of s1 k1 "n1 + 2 * p1" "n1 + 2 * p1"]
    by (simp add: fft_conv_len_crop)
  show "slice_len (n1 + 2 * p1 + 1) (crop_stop (n1 + 2 * p1) k1) s1
          = Inr (fft_conv_len n1 p1 k1 s1)"
    using h slice_len_crop [of s1 k1 "n1 + 2 * p1" "n1 + 2 * p1 + 1"]
    by (simp add: fft_conv_len_crop)
  show "fft_conv [B, C, n1] [Co, C, k1] bias (Padding (TupleVal [p1])) (TupleVal [s1]) 1
            = Inr [B, Co, fft_conv_len n1 p1 k1 s1]"
    using fft_conv_1d [of B C Co s1 k1 "n1 + 2 * p1" bias p1] h
    by (simp add: fft_conv_len_crop)
  show "fft_conv [B, C, n1, n2] [Co, C, k1, k2] bias
            (Padding (TupleVal [p1, p2])) (TupleVal [s1, s2]) 1
            = Inr [B, Co, fft_conv_len n1 p1 k1 s1, fft_conv_len n2 p2 k2 s2]"
    using fft_conv_2d [of B C Co s1 k1 "n1 + 2 * p1" s2 k2 "n2 + 2 * p2" bias p1 p2] h
    by (simp add: fft_conv_len_crop)
  show "fft_conv [B, C, n1, n2, n3] [Co, C, k1, k2, k3] bias
            (Padding (TupleVal [p1, p2, p3])) (TupleVal [s1, s2, s3]) 1
            = Inr [B, Co, fft_conv_len n1 p1 k1 s1, fft_conv_len n2 p2 k2 s2,
                   fft_conv_len n3 p3 k3 s3]"
    using fft_conv_3d [of B C Co s1 k1 "n1 + 2 * p1" s2 k2 "n2 + 2 * p2" s3 k3 "n3 + 2 * p3"
            bias p1 p2 p3] h
    by (simp add: fft_conv_len_crop)
qed

text \<open>The theorem at a signal of odd length 9 (and the padding step at length 8).\<close>

theorem fft_conv_even_padding_witness:
  "pad_to_even [1, 1, 9] = Inr [1, 1, 10]
   \<and> pad_to_even [1, 1, 8] = Inr [1, 1, 8]
   \<and> slice_len 9 (crop_stop 9 4) 1 = Inr 5
   \<and> slice_len 10 (crop_stop 9 4) 1 = Inr 5
   \<and> fft_conv [1, 1, 9] [1, 1, 4] None (Padding (TupleVal [0])) (TupleVal [1]) 1
       = Inr [1, 1, 5]
   \<and> fft_conv [1, 1, 9, 9, 9] [1, 1, 4, 4, 4] None (Padding (TupleVal [0, 0, 0]))
       (TupleVal [1, 1, 1]) 1 = Inr [1, 1, 5, 5, 5]"
  using fft_conv_even_padding [where sh = "[1, 1, 9]" and B = 1 and C = 1 and Co = 1
          and bias = None
          and ?n1.0 = 9 and ?p1.0 = 0 and ?k1.0 = 4 and ?s1.0 = 1
          and ?n2.0 = 9 and ?p2.0 = 0 and ?k2.0 = 4 and ?s2.0 = 1
          and ?n3.0 = 9 and ?p3.0 = 0 and ?k3.0 = 4 and ?s3.0 = 1]
        fft_conv_even_padding [where sh = "[1, 1, 8]" and B = 1 and C = 1 and Co = 1
          and bias = None
          and ?n1.0 = 9 and ?p1.0 = 0 and ?k1.0 = 4 and ?s1.0 = 1
          and ?n2.0 = 9 and ?p2.0 = 0 and ?k2.0 = 4 and ?s2.0 = 1
          and ?n3.0 = 9 and ?p3.0 = 0 and ?k3.0 = 4 and ?s3.0 = 1]
  by (simp add: fft_conv_len_def crop_stop_def)

text \<open>
  With a kernel longer than the padded signal the stop of the crop is negative and counts
  from the end of the dimension that was extended: a signal of length 3 and a kernel of
  size 6 give the stop \<open>-3\<close>, one sample of the 4 after the extra zero, and none of the 3
  before it.
\<close>

theorem fft_conv_long_kernel_counterexample:
  "fft_conv [1, 1, 3] [1, 1, 6] None (Padding (IntVal 0)) (IntVal 1) 1 = Inr [1, 1, 1]
   \<and> pad_to_even [1, 1, 3] = Inr [1, 1, 4]
   \<and> slice_len 4 (crop_stop 3 6) 1 = Inr 1
   \<and> slice_len 3 (crop_stop 3 6) 1 = Inr 0"
  by code_simp

section \<open>Grouped convolution\<close>

text \<open>
  Claim C2 at a grouped convolution with 4 input channels, 2 output channels and 2 groups,
  the kernel having \<open>in_channels / groups = 2\<close> input channels as \<^verbatim>\<open>_FFTConv\<close> builds it:
  the assertion on the padded kernel compares the channel dimensions too and fails, so
  \<^verbatim>\<open>complex_matmul\<close> is not reached.
\<close>

theorem fft_conv_grouped_assertion:
  "fft_conv [1, 4, 8] [2, 2, 3] None (Padding (IntVal 0)) (IntVal 1) 2 = Inl AssertionError"
  by code_simp

text \<open>For one spatial dimension, no grouped convolution with more than one group returns.\<close>

lemma fft_conv_grouped_never_returns:
  assumes "1 < groups" "0 < C"
  shows "fft_conv [B, C, n1] [Co, C div groups, k1] bias (Padding (IntVal p)) (IntVal s)
           groups \<noteq> Inr r"
proof -
  have ne: "C div groups \<noteq> C"
    using int_div_less_self [of C groups] assms by simp
  then show ?thesis
    by (simp add: fft_conv_def pad_to_even_def to_ntuple_def f_pad_def size_at_def Let_def)
qed

section \<open>Normalised mutual information\<close>

lemma sum_list_map_concat:
  "sum_list (map f (concat xss)) = sum_list (map (\<lambda>xs. sum_list (map f xs)) xss)"
  by (induction xss) simp_all

lemma sum_list_upt_sum: "sum_list (map f [0..<n]) = (\<Sum>i = 0..<n. f i)"
  by (simp add: interv_sum_list_conv_sum_set_nat)

lemma rectangular_row: "rectangular R C c \<Longrightarrow> i < R \<Longrightarrow> length (c ! i) = C"
  by (simp add: rectangular_def)

lemma sum_nonzero:
  fixes g :: "nat \<Rightarrow> nat \<Rightarrow> real"
  assumes "rectangular R C c"
  shows "sum_list (map (\<lambda>(i, j). g i j) (np_nonzero c))
           = (\<Sum>i = 0..<R. \<Sum>j = 0..<C. if c ! i ! j \<noteq> 0 then g i j else 0)"
proof -
  have len: "length c = R" using assms by (simp add: rectangular_def)
  have "sum_list (map (\<lambda>(i, j). g i j) (np_nonzero c))
          = sum_list (map (\<lambda>i. sum_list (map (\<lambda>j. if c ! i ! j \<noteq> 0 then g i j else 0)
                                           [0..<length (c ! i)])) [0..<length c])"
    by (simp add: np_nonzero_def sum_list_map_concat comp_def sum_list_map_filter')
  also have "\<dots> = (\<Sum>i = 0..<R. \<Sum>j = 0..<C. if c ! i ! j \<noteq> 0 then g i j else 0)"
    unfolding sum_list_upt_sum len
    by (rule sum.cong [OF refl]) (simp add: rectangular_row [OF assms])
  finally show ?thesis .
qed

lemma row_sums_nth:
  "rectangular R C c \<Longrightarrow> i < R \<Longrightarrow> row_sums c ! i = (\<Sum>j = 0..<C. c ! i ! j)"
  using sum_list_sum_nth [of "c ! i"]
  by (simp add: row_sums_def rectangular_def)

lemma contingency_sum_sum:
  assumes "rectangular R C c"
  shows "contingency_sum c = (\<Sum>i = 0..<R. \<Sum>j = 0..<C. c ! i ! j)"
proof -
  have "contingency_sum c = (\<Sum>i = 0..<R. row_sums c ! i)"
    using sum_list_sum_nth [of "row_sums c"] assms
    by (simp add: contingency_sum_def row_sums_def rectangular_def)
  also have "\<dots> = (\<Sum>i = 0..<R. \<Sum>j = 0..<C. c ! i ! j)"
    by (rule sum.cong) (simp_all add: row_sums_nth [OF assms])
  finally show ?thesis .
qed

lemma col_sums_nth:
  assumes "rectangular R C c" "0 < R" "j < C"
  shows "col_sums c ! j = (\<Sum>i = 0..<R. c ! i ! j)"
proof -
  have ne: "c \<noteq> []"
    using assms(1,2) by (auto simp: rectangular_def)
  then have "length (hd c) = C"
    using assms(1) by (cases c) (simp_all add: rectangular_def)
  then have "col_sums c ! j = sum_list (map (\<lambda>row. row ! j) c)"
    using assms(3) ne by (simp add: col_sums_def)
  also have "\<dots> = (\<Sum>i = 0..<R. c ! i ! j)"
    using sum_list_sum_nth [of "map (\<lambda>row. row ! j) c"] assms(1)
    by (simp add: rectangular_def)
  finally show ?thesis .
qed

lemma sum_row_sums: "sum_list (row_sums c) = contingency_sum c"
  by (simp add: row_sums_def contingency_sum_def)

lemma length_col_sums: "rectangular R C c \<Longrightarrow> 0 < R \<Longrightarrow> length (col_sums c) = C"
  by (cases c) (simp_all add: col_sums_def rectangular_def)

lemma sum_col_sums:
  assumes "rectangular R C c"
  shows "sum_list (col_sums c) = contingency_sum c"
proof (cases "R = 0")
  case True
  with assms show ?thesis
    by (simp add: rectangular_def col_sums_def contingency_sum_def)
next
  case False
  then have R: "0 < R" by simp
  have "sum_list (col_sums c) = (\<Sum>j = 0..<C. col_sums c ! j)"
    using sum_list_sum_nth [of "col_sums c"] length_col_sums [OF assms R] by simp
  also have "\<dots> = (\<Sum>j = 0..<C. \<Sum>i = 0..<R. c ! i ! j)"
    by (rule sum.cong) (simp_all add: col_sums_nth [OF assms R])
  also have "\<dots> = (\<Sum>i = 0..<R. \<Sum>j = 0..<C. c ! i ! j)"
    by (rule sum.swap)
  finally show ?thesis by (simp add: contingency_sum_sum [OF assms])
qed

lemma cell_le_row:
  "rectangular R C c \<Longrightarrow> i < R \<Longrightarrow> j < C \<Longrightarrow> c ! i ! j \<le> row_sums c ! i"
  using member_le_sum [of j "{0..<C}" "\<lambda>j. c ! i ! j"]
  by (simp add: row_sums_nth)

lemma cell_le_col:
  "rectangular R C c \<Longrightarrow> i < R \<Longrightarrow> j < C \<Longrightarrow> c ! i ! j \<le> col_sums c ! j"
  using member_le_sum [of i "{0..<R}" "\<lambda>i. c ! i ! j"]
  by (simp add: col_sums_nth)

lemma row_le_total:
  "rectangular R C c \<Longrightarrow> i < R \<Longrightarrow> row_sums c ! i \<le> contingency_sum c"
  using member_le_sum [of i "{0..<R}" "\<lambda>i. \<Sum>j = 0..<C. c ! i ! j"]
  by (simp add: row_sums_nth contingency_sum_sum)


lemma col_le_total:
  assumes "rectangular R C c" "0 < R" "j < C"
  shows "col_sums c ! j \<le> contingency_sum c"
proof -
  have "col_sums c ! j \<in> set (col_sums c)"
    using length_col_sums [OF assms(1,2)] assms(3) by simp
  then have "col_sums c ! j \<le> sum_list (col_sums c)"
    using member_le_sum_list [of "col_sums c ! j" "col_sums c"] by simp
  then show ?thesis by (simp add: sum_col_sums [OF assms(1)])
qed

lemma mi_term_eq:
  assumes "rectangular R C c" "i < R" "j < C" "c ! i ! j \<noteq> 0"
  shows "mi_term c i j
           = real (c ! i ! j) / real (contingency_sum c)
             * (log 2 (real (c ! i ! j)) + log 2 (real (contingency_sum c))
                - log 2 (real (row_sums c ! i)) - log 2 (real (col_sums c ! j)))"
proof -
  have R: "0 < R" using assms(2) by simp
  have r: "0 < row_sums c ! i"
    using cell_le_row [OF assms(1-3)] assms(4) by simp
  have q: "0 < col_sums c ! j"
    using cell_le_col [OF assms(1-3)] assms(4) by simp
  have "log 2 (real (row_sums c ! i * col_sums c ! j))
          = log 2 (real (row_sums c ! i)) + log 2 (real (col_sums c ! j))"
    using r q by (simp add: log_mult_pos)
  then show ?thesis
    by (simp add: mi_term_def Let_def sum_row_sums sum_col_sums [OF assms(1)] algebra_simps)
qed

lemma je_term_eq:
  assumes "rectangular R C c" "i < R" "j < C" "c ! i ! j \<noteq> 0"
  shows "je_term c i j
           = real (c ! i ! j) / real (contingency_sum c)
             * (log 2 (real (contingency_sum c)) - log 2 (real (c ! i ! j)))"
proof -
  have "0 < contingency_sum c"
    using cell_le_row [OF assms(1-3)] row_le_total [OF assms(1,2)] assms(4) by simp
  then have eq: "log 2 (real (c ! i ! j) / real (contingency_sum c))
          = log 2 (real (c ! i ! j)) - log 2 (real (contingency_sum c))"
    using assms(4) by (simp add: log_divide_pos)
  show ?thesis
    unfolding je_term_def Let_def eq by (simp add: algebra_simps)
qed

lemma mi_term_le_je_term:
  assumes "rectangular R C c" "i < R" "j < C" "c ! i ! j \<noteq> 0"
  shows "mi_term c i j \<le> je_term c i j"
proof -
  have f: "0 < c ! i ! j" using assms(4) by simp
  have r: "log 2 (real (c ! i ! j)) \<le> log 2 (real (row_sums c ! i))"
    using cell_le_row [OF assms(1-3)] f by simp
  have q: "log 2 (real (c ! i ! j)) \<le> log 2 (real (col_sums c ! j))"
    using cell_le_col [OF assms(1-3)] f by simp
  have "0 \<le> real (c ! i ! j) / real (contingency_sum c)"
    by simp
  then have "real (c ! i ! j) / real (contingency_sum c)
             * (log 2 (real (c ! i ! j)) + log 2 (real (contingency_sum c))
                - log 2 (real (row_sums c ! i)) - log 2 (real (col_sums c ! j)))
           \<le> real (c ! i ! j) / real (contingency_sum c)
             * (log 2 (real (contingency_sum c)) - log 2 (real (c ! i ! j)))"
    using r q by (intro mult_left_mono) simp_all
  then show ?thesis
    by (simp only: mi_term_eq [OF assms] je_term_eq [OF assms])
qed

lemma scale_div:
  "(l::real) \<noteq> 0 \<Longrightarrow> a * (x + y - z - w) / l = a * (x / l + y / l - z / l - w / l)"
  by (simp add: field_simps)

lemma mi_term_lower:
  assumes "rectangular R C c" "i < R" "j < C" "c ! i ! j \<noteq> 0"
  shows "(real (c ! i ! j) / real (contingency_sum c)
          - real (row_sums c ! i) * real (col_sums c ! j) / (real (contingency_sum c))\<^sup>2) / ln 2
         \<le> mi_term c i j"
proof -
  define f where "f = real (c ! i ! j)"
  define r where "r = real (row_sums c ! i)"
  define q where "q = real (col_sums c ! j)"
  define N where "N = real (contingency_sum c)"
  have f: "0 < f" using assms(4) by (simp add: f_def)
  have r: "0 < r"
    using cell_le_row [OF assms(1-3)] assms(4) by (simp add: r_def)
  have q: "0 < q"
    using cell_le_col [OF assms(1-3)] assms(4) by (simp add: q_def)
  have N: "0 < N"
    using cell_le_row [OF assms(1-3)] row_le_total [OF assms(1,2)] assms(4) by (simp add: N_def)
  define x where "x = r * q / (f * N)"
  have x: "0 < x" using f r q N by (simp add: x_def)
  have lnx: "ln x = ln r + ln q - ln f - ln N"
    using f r q N by (simp add: x_def ln_div ln_mult)
  have "ln x \<le> x - 1"
    using x by (rule ln_le_minus_one)
  then have "1 - x \<le> ln f + ln N - ln r - ln q"
    using lnx by simp
  then have "f / N * (1 - x) \<le> f / N * (ln f + ln N - ln r - ln q)"
    using f N by (intro mult_left_mono) simp_all
  moreover have "f / N * (1 - x) = f / N - r * q / N\<^sup>2"
    using f N by (simp add: x_def field_simps power2_eq_square)
  ultimately have le: "f / N - r * q / N\<^sup>2 \<le> f / N * (ln f + ln N - ln r - ln q)"
    by simp
  have l2: "0 < ln (2::real)" by simp
  have "(f / N - r * q / N\<^sup>2) / ln 2
          \<le> (f / N * (ln f + ln N - ln r - ln q)) / ln 2"
    using le l2 by (intro divide_right_mono) simp_all
  also have "\<dots> = f / N * (log 2 f + log 2 N - log 2 r - log 2 q)"
    unfolding log_def by (rule scale_div) simp
  finally show ?thesis
    unfolding mi_term_eq [OF assms] f_def r_def q_def N_def .
qed

lemma mutual_info_sum:
  "rectangular R C c \<Longrightarrow>
   mutual_info_from_contingency c
     = (\<Sum>i = 0..<R. \<Sum>j = 0..<C. if c ! i ! j \<noteq> 0 then mi_term c i j else 0)"
  by (simp add: mutual_info_from_contingency_def sum_nonzero)

lemma joint_entropy_sum:
  "rectangular R C c \<Longrightarrow>
   joint_entropy_from_contingency c
     = (\<Sum>i = 0..<R. \<Sum>j = 0..<C. if c ! i ! j \<noteq> 0 then je_term c i j else 0)"
  by (simp add: joint_entropy_from_contingency_def sum_nonzero)

lemma mutual_info_le_joint_entropy:
  assumes "rectangular R C c"
  shows "mutual_info_from_contingency c \<le> joint_entropy_from_contingency c"
  unfolding mutual_info_sum [OF assms] joint_entropy_sum [OF assms]
  by (intro sum_mono) (simp add: mi_term_le_je_term [OF assms])

lemma mutual_info_nonneg:
  assumes "rectangular R C c"
  shows "0 \<le> mutual_info_from_contingency c"
proof (cases "contingency_sum c = 0")
  case True
  then have "c ! i ! j = 0" if "i < R" "j < C" for i j
    using that by (simp add: contingency_sum_sum [OF assms])
  then show ?thesis
    by (simp add: mutual_info_sum [OF assms])
next
  case False
  define N where "N = real (contingency_sum c)"
  have N: "0 < N" using False by (simp add: N_def)
  have R: "0 < R"
    using False by (cases "R = 0") (simp_all add: contingency_sum_sum [OF assms])
  have rows: "(\<Sum>i = 0..<R. real (row_sums c ! i)) = N"
  proof -
    have "(\<Sum>i = 0..<R. row_sums c ! i) = contingency_sum c"
      unfolding contingency_sum_sum [OF assms]
      by (rule sum.cong) (simp_all add: row_sums_nth [OF assms])
    then show ?thesis
      unfolding N_def by (metis of_nat_sum)
  qed
  have cols: "(\<Sum>j = 0..<C. real (col_sums c ! j)) = N"
  proof -
    have "(\<Sum>j = 0..<C. col_sums c ! j) = (\<Sum>j = 0..<C. \<Sum>i = 0..<R. c ! i ! j)"
      by (rule sum.cong) (simp_all add: col_sums_nth [OF assms R])
    also have "\<dots> = contingency_sum c"
      unfolding contingency_sum_sum [OF assms] by (rule sum.swap)
    finally show ?thesis
      unfolding N_def by (metis of_nat_sum)
  qed
  have cells: "(\<Sum>i = 0..<R. \<Sum>j = 0..<C. real (c ! i ! j)) = N"
    unfolding N_def contingency_sum_sum [OF assms] by simp
  have a: "(\<Sum>i = 0..<R. \<Sum>j = 0..<C. real (c ! i ! j) / N) = 1"
    using N cells by (simp add: sum_divide_distrib [symmetric])
  have "(\<Sum>i = 0..<R. \<Sum>j = 0..<C. real (row_sums c ! i) * real (col_sums c ! j)) = N * N"
    using sum_product [of "\<lambda>i. real (row_sums c ! i)" "{0..<R}"
                         "\<lambda>j. real (col_sums c ! j)" "{0..<C}"]
    by (simp add: rows cols)
  then have b: "(\<Sum>i = 0..<R. \<Sum>j = 0..<C.
                    real (row_sums c ! i) * real (col_sums c ! j) / N\<^sup>2) = 1"
    using N by (simp add: sum_divide_distrib [symmetric] power2_eq_square)
  have "(\<Sum>i = 0..<R. \<Sum>j = 0..<C.
           (real (c ! i ! j) / N - real (row_sums c ! i) * real (col_sums c ! j) / N\<^sup>2) / ln 2)
        = (\<Sum>i = 0..<R. \<Sum>j = 0..<C.
           (real (c ! i ! j) / N - real (row_sums c ! i) * real (col_sums c ! j) / N\<^sup>2)) / ln 2"
    by (simp add: sum_divide_distrib)
  also have "(\<Sum>i = 0..<R. \<Sum>j = 0..<C.
           (real (c ! i ! j) / N - real (row_sums c ! i) * real (col_sums c ! j) / N\<^sup>2))
        = (\<Sum>i = 0..<R. \<Sum>j = 0..<C. real (c ! i ! j) / N)
          - (\<Sum>i = 0..<R. \<Sum>j = 0..<C.
               real (row_sums c ! i) * real (col_sums c ! j) / N\<^sup>2)"
    by (simp add: sum_subtractf)
  finally have zero: "(\<Sum>i = 0..<R. \<Sum>j = 0..<C.
           (real (c ! i ! j) / N - real (row_sums c ! i) * real (col_sums c ! j) / N\<^sup>2) / ln 2)
        = 0"
    unfolding a b by simp
  have "(real (c ! i ! j) / N - real (row_sums c ! i) * real (col_sums c ! j) / N\<^sup>2) / ln 2
        \<le> (if c ! i ! j \<noteq> 0 then mi_term c i j else 0)"
    if "i \<in> {0..<R}" "j \<in> {0..<C}" for i j
  proof (cases "c ! i ! j = 0")
    case True
    have "0 \<le> real (row_sums c ! i) * real (col_sums c ! j) / N\<^sup>2 / ln 2"
      by simp
    with True show ?thesis by (simp add: diff_divide_distrib)
  next
    case False
    with that mi_term_lower [OF assms, of i j] show ?thesis
      by (simp add: N_def)
  qed
  then have "(\<Sum>i = 0..<R. \<Sum>j = 0..<C.
           (real (c ! i ! j) / N - real (row_sums c ! i) * real (col_sums c ! j) / N\<^sup>2) / ln 2)
        \<le> (\<Sum>i = 0..<R. \<Sum>j = 0..<C. if c ! i ! j \<noteq> 0 then mi_term c i j else 0)"
    by (intro sum_mono) 
  then show ?thesis
    unfolding zero mutual_info_sum [OF assms] .
qed


lemma diagonal_row_sum:
  assumes "rectangular R R c" "i < R" "\<And>i j. i < R \<Longrightarrow> j < R \<Longrightarrow> i \<noteq> j \<Longrightarrow> c ! i ! j = 0"
  shows "row_sums c ! i = c ! i ! i"
proof -
  have "(\<Sum>j = 0..<R. c ! i ! j) = (\<Sum>j = 0..<R. if j = i then c ! i ! i else 0)"
    by (rule sum.cong) (use assms(2,3) in auto)
  also have "\<dots> = c ! i ! i"
    using assms(2) by simp
  finally show ?thesis
    by (simp add: row_sums_nth [OF assms(1,2)])
qed

lemma diagonal_col_sum:
  assumes "rectangular R R c" "j < R" "\<And>i j. i < R \<Longrightarrow> j < R \<Longrightarrow> i \<noteq> j \<Longrightarrow> c ! i ! j = 0"
  shows "col_sums c ! j = c ! j ! j"
proof -
  have R: "0 < R" using assms(2) by simp
  have "(\<Sum>i = 0..<R. c ! i ! j) = (\<Sum>i = 0..<R. if i = j then c ! j ! j else 0)"
    by (rule sum.cong) (use assms(2,3) in auto)
  also have "\<dots> = c ! j ! j"
    using assms(2) by simp
  finally show ?thesis
    by (simp add: col_sums_nth [OF assms(1) R assms(2)])
qed

lemma diagonal_mutual_info:
  assumes "rectangular R R c" "\<And>i j. i < R \<Longrightarrow> j < R \<Longrightarrow> i \<noteq> j \<Longrightarrow> c ! i ! j = 0"
  shows "mutual_info_from_contingency c = joint_entropy_from_contingency c"
  unfolding mutual_info_sum [OF assms(1)] joint_entropy_sum [OF assms(1)]
proof (intro sum.cong refl)
  fix i j
  assume ij: "i \<in> {0..<R}" "j \<in> {0..<R}"
  show "(if c ! i ! j \<noteq> 0 then mi_term c i j else 0)
      = (if c ! i ! j \<noteq> 0 then je_term c i j else 0)"
  proof (cases "c ! i ! j = 0")
    case True
    then show ?thesis by simp
  next
    case False
    with ij assms(2) [of i j] have eq: "i = j" by auto
    have i: "i < R" "j < R" using ij by simp_all
    have "mi_term c i j = je_term c i j"
      unfolding mi_term_eq [OF assms(1) i False] je_term_eq [OF assms(1) i False]
      using diagonal_row_sum [OF assms(1) i(1) assms(2)]
            diagonal_col_sum [OF assms(1) i(2) assms(2)]
      by (simp add: eq)
    then show ?thesis by simp
  qed
qed

lemma histogram2d_rectangular: "histogram2d a b bins = Inr c \<Longrightarrow> rectangular bins bins c"
  by (auto simp: histogram2d_def rectangular_def split: if_splits)

lemma histogram2d_cell:
  "histogram2d a b bins = Inr c \<Longrightarrow> i < bins \<Longrightarrow> j < bins \<Longrightarrow>
   c ! i ! j = length (filter (\<lambda>(x, y). bin_index bins a x = i \<and> bin_index bins b y = j)
                              (zip a b))"
  by (auto simp: histogram2d_def split: if_splits)

lemma histogram2d_same_diagonal:
  assumes "histogram2d a a bins = Inr c" "i < bins" "j < bins" "i \<noteq> j"
  shows "c ! i ! j = 0"
  unfolding histogram2d_cell [OF assms(1-3)]
  using assms(4) by (auto simp: filter_empty_conv zip_same)

lemma histogram2d_returns:
  "length a = length b \<Longrightarrow> 0 < bins \<Longrightarrow> \<exists>c. histogram2d a b bins = Inr c"
  by (simp add: histogram2d_def)

lemma normalised_range:
  assumes "histogram2d a b bins = Inr c"
  shows "(joint_entropy_from_contingency c \<noteq> 0 \<longrightarrow>
            (\<exists>v. mutual_information a b bins True = Inr (Some v) \<and> 0 \<le> v \<and> v \<le> 1))
         \<and> (joint_entropy_from_contingency c = 0 \<longrightarrow>
              mutual_information a b bins True = Inr None)"
proof -
  have r: "rectangular bins bins c"
    using assms by (rule histogram2d_rectangular)
  have mi: "0 \<le> mutual_info_from_contingency c"
    using r by (rule mutual_info_nonneg)
  have le: "mutual_info_from_contingency c \<le> joint_entropy_from_contingency c"
    using r by (rule mutual_info_le_joint_entropy)
  show ?thesis
    using mi le by (simp add: mutual_information_def assms np_divide_def Let_def)
qed

lemma normalised_self:
  assumes "histogram2d a a bins = Inr c" "joint_entropy_from_contingency c \<noteq> 0"
  shows "mutual_information a a bins True = Inr (Some 1)"
proof -
  have r: "rectangular bins bins c"
    using assms(1) by (rule histogram2d_rectangular)
  have "mutual_info_from_contingency c = joint_entropy_from_contingency c"
    using r histogram2d_same_diagonal [OF assms(1)] by (rule diagonal_mutual_info)
  then show ?thesis
    using assms(2) by (simp add: mutual_information_def assms(1) np_divide_def Let_def)
qed

text \<open>
  Claim C8, as the source has it, in exact real arithmetic. For two images of the same
  length and a positive number of bins, \<^verbatim>\<open>mutual_information\<close> with \<^verbatim>\<open>normalised=True\<close>
  builds the histogram and divides the mutual information of the contingency table by
  its joint entropy. When that joint entropy is not zero the value lies in \<open>[0, 1]\<close>, and
  the value for an image with itself is \<open>1\<close>; when it is zero the quotient is \<open>0 / 0\<close>,
  which \<^verbatim>\<open>numpy\<close> returns as \<^verbatim>\<open>nan\<close>. Hence whenever both calls return a number,
  \<^verbatim>\<open>mutual_information(a, a)\<close> is at least \<^verbatim>\<open>mutual_information(a, b)\<close>.
\<close>

theorem mutual_information_normalised_range:
  "length a = length b \<and> 0 < bins \<longrightarrow>
     (\<exists>c. histogram2d a b bins = Inr c
        \<and> (joint_entropy_from_contingency c \<noteq> 0 \<longrightarrow>
             (\<exists>v. mutual_information a b bins True = Inr (Some v) \<and> 0 \<le> v \<and> v \<le> 1))
        \<and> (joint_entropy_from_contingency c = 0 \<longrightarrow>
             mutual_information a b bins True = Inr None))
     \<and> (\<exists>d. histogram2d a a bins = Inr d
        \<and> (joint_entropy_from_contingency d \<noteq> 0 \<longrightarrow>
             mutual_information a a bins True = Inr (Some 1))
        \<and> (joint_entropy_from_contingency d = 0 \<longrightarrow>
             mutual_information a a bins True = Inr None))
     \<and> (\<forall>v w. mutual_information a b bins True = Inr (Some v)
               \<and> mutual_information a a bins True = Inr (Some w) \<longrightarrow> v \<le> w)"
proof (intro impI conjI)
  assume h: "length a = length b \<and> 0 < bins"
  then obtain c where c: "histogram2d a b bins = Inr c"
    using histogram2d_returns [of a b bins] by blast
  show "\<exists>c. histogram2d a b bins = Inr c
        \<and> (joint_entropy_from_contingency c \<noteq> 0 \<longrightarrow>
             (\<exists>v. mutual_information a b bins True = Inr (Some v) \<and> 0 \<le> v \<and> v \<le> 1))
        \<and> (joint_entropy_from_contingency c = 0 \<longrightarrow>
             mutual_information a b bins True = Inr None)"
    using c normalised_range [OF c] by blast
  from h obtain d where d: "histogram2d a a bins = Inr d"
    using histogram2d_returns [of a a bins] by blast
  show "\<exists>d. histogram2d a a bins = Inr d
        \<and> (joint_entropy_from_contingency d \<noteq> 0 \<longrightarrow>
             mutual_information a a bins True = Inr (Some 1))
        \<and> (joint_entropy_from_contingency d = 0 \<longrightarrow>
             mutual_information a a bins True = Inr None)"
    using d normalised_self [OF d] normalised_range [OF d] by blast
  show "\<forall>v w. mutual_information a b bins True = Inr (Some v)
               \<and> mutual_information a a bins True = Inr (Some w) \<longrightarrow> v \<le> w"
  proof (intro allI impI)
    fix v w
    assume vw: "mutual_information a b bins True = Inr (Some v)
               \<and> mutual_information a a bins True = Inr (Some w)"
    have "joint_entropy_from_contingency d \<noteq> 0"
      using vw normalised_range [OF d] by auto
    then have "w = 1"
      using vw normalised_self [OF d] by simp
    moreover have "v \<le> 1"
      using vw normalised_range [OF c] by (cases "joint_entropy_from_contingency c = 0") auto
    ultimately show "v \<le> w"
      by simp
  qed
qed

lemma single_cell_entropy:
  assumes "rectangular R C c" "i0 < R" "j0 < C"
    and cell: "\<And>i j. i < R \<Longrightarrow> j < C \<Longrightarrow> c ! i ! j = (if i = i0 \<and> j = j0 then n else 0)"
  shows "joint_entropy_from_contingency c = 0"
proof -
  have "(\<Sum>i = 0..<R. \<Sum>j = 0..<C. c ! i ! j)
          = (\<Sum>i = 0..<R. \<Sum>j = 0..<C. if i = i0 \<and> j = j0 then n else 0)"
    by (intro sum.cong refl) (simp add: cell)
  also have "\<dots> = (\<Sum>i = 0..<R. if i = i0 then n else 0)"
    by (intro sum.cong refl) (use assms(3) in auto)
  also have "\<dots> = n"
    using assms(2) by simp
  finally have N: "contingency_sum c = n"
    by (simp add: contingency_sum_sum [OF assms(1)])
  have "(if c ! i ! j \<noteq> 0 then je_term c i j else 0) = 0"
    if "i \<in> {0..<R}" "j \<in> {0..<C}" for i j
    using that by (simp add: cell je_term_def N)
  then show ?thesis
    unfolding joint_entropy_sum [OF assms(1)] by simp
qed

lemma constant_image_nan:
  assumes "a \<noteq> []" "\<forall>x \<in> set a. x = v" "0 < bins"
  shows "mutual_information a a bins True = Inr None"
proof -
  obtain c where c: "histogram2d a a bins = Inr c"
    using histogram2d_returns [of a a bins] assms(3) by blast
  have r: "rectangular bins bins c"
    using c by (rule histogram2d_rectangular)
  have v: "v \<in> set a" using assms(1,2) by (cases a) simp_all
  have sv: "set a = {v}" using v assms(2) by blast
  have rng: "bin_range a = (v - 1 / 2, v + 1 / 2)"
    unfolding bin_range_def sv using assms(1) by simp
  define i0 where "i0 = bin_index bins a v"
  have i0_eq: "i0 = nat \<lfloor>real bins / 2\<rfloor>"
    unfolding i0_def bin_index_def rng by simp
  have "real bins / 2 < real bins" using assms(3) by simp
  then have "\<lfloor>real bins / 2\<rfloor> < int bins"
    by (simp only: floor_less_iff of_int_of_nat_eq)
  then have i0: "i0 < bins"
    unfolding i0_eq using assms(3) by linarith
  have same: "bin_index bins a x = i0" if "x \<in> set a" for x
    using assms(2) that by (simp only: i0_def)
  have cell: "c ! i ! j = (if i = i0 \<and> j = i0 then length a else 0)"
    if "i < bins" "j < bins" for i j
  proof -
    have "filter (\<lambda>(x, y). bin_index bins a x = i \<and> bin_index bins a y = j) (zip a a)
            = filter (\<lambda>_. i = i0 \<and> j = i0) (zip a a)"
    proof (rule filter_cong [OF refl])
      fix p
      assume p: "p \<in> set (zip a a)"
      obtain x y where xy: "p = (x, y)" by (cases p)
      from p have "x \<in> set a" "y \<in> set a"
        unfolding xy by (auto dest: set_zip_leftD set_zip_rightD)
      then have "bin_index bins a x = i0" "bin_index bins a y = i0"
        by (simp_all only: same)
      then show "(case p of (x, y) \<Rightarrow> bin_index bins a x = i \<and> bin_index bins a y = j)
               = (i = i0 \<and> j = i0)"
        unfolding xy by auto
    qed
    then show ?thesis
      unfolding histogram2d_cell [OF c that] by simp
  qed
  have "joint_entropy_from_contingency c = 0"
    using r i0 i0 cell by (rule single_cell_entropy)
  then show ?thesis
    using normalised_range [OF c] by simp
qed

text \<open>
  The claim as the spec words it fails at a constant image: all four pixels fall into
  one cell of the histogram, the joint entropy and the mutual information are both zero,
  and the normalised value is \<open>0 / 0\<close>, not a number of \<open>[0, 1]\<close>.
\<close>

theorem mutual_information_constant_counterexample:
  "mutual_information [5, 5, 5, 5] [5, 5, 5, 5] 256 True = Inr None"
  by (rule constant_image_nan [where v = 5]) simp_all

lemma log_half: "log 2 (1 / 2) = - 1"
  by (simp add: log_divide)


lemma witness_histogram:
  "histogram2d [0, 0, 1, 1] [0, 0, 1, 1] 2 = Inr [[2, 0], [0, 2]]"
  "histogram2d [0, 0, 1, 1] [1, 1, 0, 0] 2 = Inr [[0, 2], [2, 0]]"
  "histogram2d [5, 5] [5, 5] 2 = Inr [[0, 0], [0, 2]]"
  by code_simp+

lemma witness_entropy:
  "joint_entropy_from_contingency [[2, 0], [0, 2]] = 1"
  "joint_entropy_from_contingency [[0, 2], [2, 0]] = 1"
  "joint_entropy_from_contingency [[0, 0], [0, 2]] = 0"
  by (simp_all add: joint_entropy_from_contingency_def np_nonzero_def je_term_def
        contingency_sum_def log_half)

lemma log_four: "log 2 4 = 2"
  using log_pow_cancel [of 2 2] by simp

lemma witness_mutual_info:
  "mutual_info_from_contingency [[0, 2], [2, 0]] = 1"
  by (simp add: mutual_info_from_contingency_def np_nonzero_def mi_term_def
        contingency_sum_def row_sums_def col_sums_def log_four)

text \<open>
  The theorem at an image of two grey levels, with its negative and with itself, where
  both values are \<open>1\<close>, and at a constant image of two pixels, where the joint entropy is
  zero and the value is \<^verbatim>\<open>nan\<close>.
\<close>

theorem mutual_information_normalised_range_witness:
  "length [0, 0, 1, 1 :: real] = length [1, 1, 0, 0 :: real] \<and> (0::nat) < 2
   \<and> joint_entropy_from_contingency [[0, 2], [2, 0]] \<noteq> 0
   \<and> mutual_information [0, 0, 1, 1] [1, 1, 0, 0] 2 True = Inr (Some 1)
   \<and> joint_entropy_from_contingency [[2, 0], [0, 2]] \<noteq> 0
   \<and> mutual_information [0, 0, 1, 1] [0, 0, 1, 1] 2 True = Inr (Some 1)
   \<and> joint_entropy_from_contingency [[0, 0], [0, 2]] = 0
   \<and> mutual_information [5, 5] [5, 5] 2 True = Inr None"
  using mutual_information_normalised_range [of "[0, 0, 1, 1]" "[1, 1, 0, 0]" 2]
        mutual_information_normalised_range [of "[5, 5]" "[5, 5]" 2]
  by (simp add: witness_histogram witness_entropy witness_mutual_info
        mutual_information_def np_divide_def)

end
